theory Spec2Isabelle
  imports Complex_Main "HOL-Library.Sublist"
begin

section \<open>Data model (types.ts)\<close>

text \<open>
  JavaScript numbers are modelled by exact numbers: continuous quantities (positions,
  times, distances) by \<open>real\<close>, counters and scores by \<open>int\<close> or \<open>nat\<close>.
  \<open>Math.round\<close> is \<open>round\<close> (\<open>\<lfloor>x + 1/2\<rfloor>\<close>), \<open>Math.floor\<close> and \<open>Math.ceil\<close>
  are \<open>floor\<close> and \<open>ceiling\<close>.
\<close>

datatype Direction = UP | DOWN | LEFT | RIGHT | NONE

text \<open>The fields \<open>x\<close> and \<open>y\<close> of \<open>Position\<close> are called \<open>px\<close> and \<open>py\<close>.\<close>

record Position =
  px :: real
  py :: real

datatype TileType = WALL | PELLET | EMPTY | POWER_PELLET | PACMAN_SPAWN | GHOST_SPAWN

datatype GhostStatus = NORMAL | VULNERABLE | EATEN

record GhostEntity =
  g_id :: int
  g_pos :: Position
  g_color :: string
  g_startPos :: Position
  g_direction :: Direction
  g_status :: GhostStatus

type_synonym Grid = "TileType list list"

section \<open>Constants (constants.ts)\<close>

text \<open>The numeric tile codes of \<open>INITIAL_MAP\<close>: the values of the enum \<open>TileType\<close>.\<close>

definition tileOfCode :: "nat \<Rightarrow> TileType" where
  "tileOfCode n =
     (if n = 0 then WALL else if n = 1 then PELLET else if n = 2 then EMPTY
      else if n = 3 then POWER_PELLET else if n = 8 then GHOST_SPAWN else PACMAN_SPAWN)"

definition INITIAL_MAP :: Grid where
  "INITIAL_MAP = map (map tileOfCode)
  [[0, 0, 0, 0, 0, 0, 0, 0, 0, 0, 0, 0, 0, 0, 0, 0, 0, 0, 0],
   [0, 3, 1, 1, 1, 1, 1, 1, 1, 0, 1, 1, 1, 1, 1, 1, 1, 3, 0],
   [0, 1, 0, 0, 1, 0, 0, 0, 1, 0, 1, 0, 0, 0, 1, 0, 0, 1, 0],
   [0, 1, 0, 0, 1, 0, 0, 0, 1, 0, 1, 0, 0, 0, 1, 0, 0, 1, 0],
   [0, 1, 1, 1, 1, 1, 1, 1, 1, 1, 1, 1, 1, 1, 1, 1, 1, 1, 0],
   [0, 1, 0, 0, 1, 0, 1, 0, 0, 0, 0, 0, 1, 0, 1, 0, 0, 1, 0],
   [0, 1, 1, 1, 1, 0, 1, 1, 1, 0, 1, 1, 1, 0, 1, 1, 1, 1, 0],
   [0, 0, 0, 0, 1, 0, 0, 0, 2, 2, 2, 0, 0, 0, 1, 0, 0, 0, 0],
   [2, 2, 2, 0, 1, 0, 2, 2, 8, 8, 8, 2, 2, 0, 1, 0, 2, 2, 2],
   [0, 0, 0, 0, 1, 0, 2, 0, 0, 2, 0, 0, 2, 0, 1, 0, 0, 0, 0],
   [0, 1, 1, 1, 1, 1, 1, 1, 1, 9, 1, 1, 1, 1, 1, 1, 1, 1, 0],
   [0, 1, 0, 0, 1, 0, 0, 0, 1, 0, 1, 0, 0, 0, 1, 0, 0, 1, 0],
   [0, 1, 1, 0, 1, 1, 1, 1, 1, 0, 1, 1, 1, 1, 1, 0, 1, 1, 0],
   [0, 0, 1, 0, 1, 0, 1, 0, 0, 0, 0, 0, 1, 0, 1, 0, 1, 0, 0],
   [0, 3, 1, 1, 1, 0, 1, 1, 1, 0, 1, 1, 1, 0, 1, 1, 1, 3, 0],
   [0, 0, 0, 0, 0, 0, 0, 0, 0, 0, 0, 0, 0, 0, 0, 0, 0, 0, 0]]"

definition MAP_WIDTH :: int where
  "MAP_WIDTH = int (length (INITIAL_MAP ! 0))"

definition MAP_HEIGHT :: int where
  "MAP_HEIGHT = int (length INITIAL_MAP)"

text \<open>\<open>DIRECTIONS[dir]\<close>: the pair \<open>(x, y)\<close> of the unit move.\<close>

fun DIRECTIONS :: "Direction \<Rightarrow> int \<times> int" where
  "DIRECTIONS UP = (0, -1)"
| "DIRECTIONS DOWN = (0, 1)"
| "DIRECTIONS LEFT = (-1, 0)"
| "DIRECTIONS RIGHT = (1, 0)"
| "DIRECTIONS NONE = (0, 0)"

text \<open>An entry of \<open>INITIAL_GHOSTS\<close>: identity, colour and start position.\<close>

definition INITIAL_GHOSTS :: "(int \<times> string \<times> Position) list" where
  "INITIAL_GHOSTS =
    [(1, ''bg-red-500'', \<lparr>px = 9, py = 8\<rparr>),
     (2, ''bg-pink-400'', \<lparr>px = 8, py = 8\<rparr>),
     (3, ''bg-cyan-400'', \<lparr>px = 10, py = 8\<rparr>),
     (4, ''bg-orange-400'', \<lparr>px = 9, py = 7\<rparr>),
     (5, ''bg-purple-400'', \<lparr>px = 8, py = 7\<rparr>),
     (6, ''bg-green-400'', \<lparr>px = 10, py = 7\<rparr>)]"

record RoundConfig =
  speed :: real
  name :: string
  ghostCount :: nat

text \<open>
  \<open>ROUND_CONFIGS[n]\<close> is \<open>undefined\<close> for a key outside the table; reading a
  property of it throws. The lookup returns \<open>None\<close> there.
\<close>

definition ROUND_CONFIGS :: "int \<Rightarrow> RoundConfig option" where
  "ROUND_CONFIGS n =
     (if n = 1 then Some \<lparr>speed = 130, name = ''EASY'', ghostCount = 3\<rparr>
      else if n = 2 then Some \<lparr>speed = 90, name = ''MODERATE'', ghostCount = 4\<rparr>
      else if n = 3 then Some \<lparr>speed = 70, name = ''HARD'', ghostCount = 6\<rparr>
      else None)"

text \<open>\<open>ROUND_START_PAUSE[n]\<close>: duration and message; \<open>None\<close> outside the table.\<close>

definition ROUND_START_PAUSE :: "int \<Rightarrow> (real \<times> string) option" where
  "ROUND_START_PAUSE n =
     (if n = 1 then Some (2000, ''GET READY'')
      else if n = 2 then Some (2000, ''STAY SHARP'')
      else if n = 3 then Some (3000, ''FINAL ROUND'')
      else None)"

definition VULNERABLE_DURATION_MS :: real where
  "VULNERABLE_DURATION_MS = 10000"

section \<open>Grid access\<close>

text \<open>
  \<open>grid[y][x]\<close>. The source reads the grid only at indices it has checked against
  \<open>MAP_HEIGHT\<close> and \<open>MAP_WIDTH\<close> (or taken from the grid itself), and every grid is a copy
  of \<open>INITIAL_MAP\<close> with some cells rewritten (\<open>gridShape\<close> below), so the read is in
  range. Outside a row JavaScript gives \<open>undefined\<close>, which differs from every tile, and
  outside the rows the read throws: \<open>None\<close> here for both.
\<close>

definition tileAt :: "Grid \<Rightarrow> int \<Rightarrow> int \<Rightarrow> TileType option" where
  "tileAt g x y =
     (if 0 \<le> y \<and> y < int (length g) \<and> 0 \<le> x \<and> x < int (length (g ! nat y))
      then Some (g ! nat y ! nat x) else None)"

text \<open>\<open>grid[y][x] = t\<close>, used by the source only on a cell it has just read.\<close>

definition setTile :: "Grid \<Rightarrow> int \<Rightarrow> int \<Rightarrow> TileType \<Rightarrow> Grid" where
  "setTile g x y t = g[nat y := (g ! nat y)[nat x := t]]"

section \<open>Adversary decision engine (utils/ghostAI.ts)\<close>

definition getDistance :: "Position \<Rightarrow> Position \<Rightarrow> real" where
  "getDistance p1 p2 = \<bar>px p1 - px p2\<bar> + \<bar>py p1 - py p2\<bar>"

definition getNextTile :: "Position \<Rightarrow> Direction \<Rightarrow> Position" where
  "getNextTile pos dir =
     (let move = DIRECTIONS dir
      in \<lparr>px = of_int (round (px pos + of_int (fst move))),
          py = of_int (round (py pos + of_int (snd move)))\<rparr>)"

fun getOppositeDirection :: "Direction \<Rightarrow> Direction" where
  "getOppositeDirection UP = DOWN"
| "getOppositeDirection DOWN = UP"
| "getOppositeDirection LEFT = RIGHT"
| "getOppositeDirection RIGHT = LEFT"
| "getOppositeDirection NONE = NONE"

definition getTargetPosition ::
  "GhostEntity \<Rightarrow> Position \<Rightarrow> Direction \<Rightarrow> Position \<Rightarrow> int \<Rightarrow> Position" where
  "getTargetPosition ghost pacmanPos pacmanDir blinkyPos roundNum =
     (if roundNum = 1 then pacmanPos
      else if g_id ghost = 1 then pacmanPos
      else if g_id ghost = 2 then
        \<lparr>px = px pacmanPos + of_int (fst (DIRECTIONS pacmanDir) * 4),
         py = py pacmanPos + of_int (snd (DIRECTIONS pacmanDir) * 4)\<rparr>
      else if g_id ghost = 3 then
        (if roundNum < 3 then pacmanPos
         else
           (let pivotX = px pacmanPos + of_int (fst (DIRECTIONS pacmanDir) * 2);
                pivotY = py pacmanPos + of_int (snd (DIRECTIONS pacmanDir) * 2);
                vecX = pivotX - px blinkyPos;
                vecY = pivotY - py blinkyPos
            in \<lparr>px = px blinkyPos + vecX * 2, py = py blinkyPos + vecY * 2\<rparr>))
      else if g_id ghost = 4 then
        (let dist = getDistance (g_pos ghost) pacmanPos
         in if dist > 8 then pacmanPos
            else \<lparr>px = 0, py = of_int (MAP_HEIGHT - 1)\<rparr>)
      else if g_id ghost = 5 then
        \<lparr>px = px pacmanPos - of_int (fst (DIRECTIONS pacmanDir) * 4),
         py = py pacmanPos - of_int (snd (DIRECTIONS pacmanDir) * 4)\<rparr>
      else if g_id ghost = 6 then
        \<lparr>px = of_int (MAP_WIDTH - 1) - px pacmanPos,
         py = of_int (MAP_HEIGHT - 1) - py pacmanPos\<rparr>
      else pacmanPos)"

definition checkOrder :: "Direction list" where
  "checkOrder = [UP, LEFT, DOWN, RIGHT]"

text \<open>The body of the \<open>forEach\<close> of \<open>getAvailableMoves\<close>: whether \<open>dir\<close> is pushed.\<close>

definition moveAdmitted :: "GhostEntity \<Rightarrow> Grid \<Rightarrow> bool \<Rightarrow> Direction \<Rightarrow> bool" where
  "moveAdmitted ghost grid allowReverse dir =
     (let opposite = getOppositeDirection (g_direction ghost);
          x = round (px (g_pos ghost));
          y = round (py (g_pos ghost))
      in if \<not> allowReverse \<and> dir = opposite then False
         else
           (let nextX = x + fst (DIRECTIONS dir);
                nextY = y + snd (DIRECTIONS dir)
            in if nextY \<ge> 0 \<and> nextY < MAP_HEIGHT \<and> nextX \<ge> 0 \<and> nextX < MAP_WIDTH
               then tileAt grid nextX nextY \<noteq> Some WALL
               else nextX < 0 \<or> nextX \<ge> MAP_WIDTH))"

definition getAvailableMoves :: "GhostEntity \<Rightarrow> Grid \<Rightarrow> bool \<Rightarrow> Direction list" where
  "getAvailableMoves ghost grid allowReverse =
     filter (moveAdmitted ghost grid allowReverse) checkOrder"

text \<open>
  \<open>minDistance\<close> starts at \<open>Infinity\<close>: \<open>None\<close> here, below which every distance is.
\<close>

fun belowMin :: "real \<Rightarrow> real option \<Rightarrow> bool" where
  "belowMin d None = True"
| "belowMin d (Some m) = (d < m)"

text \<open>
  The loop of case C over \<open>validMoves\<close>; \<open>distOf dir\<close> is the distance the body
  computes for \<open>dir\<close>.
\<close>

fun chooseLoop ::
  "(Direction \<Rightarrow> real) \<Rightarrow> Direction list \<Rightarrow> Direction \<Rightarrow> real option \<Rightarrow> Direction" where
  "chooseLoop distOf [] bestDir minDistance = bestDir"
| "chooseLoop distOf (dir # rest) bestDir minDistance =
     (let dist = distOf dir
      in if belowMin dist minDistance then chooseLoop distOf rest dir (Some dist)
         else chooseLoop distOf rest bestDir minDistance)"

text \<open>
  \<open>Math.random()\<close> is the sequence \<open>rand\<close> of the values it returns, in call order,
  and the number \<open>k\<close> of calls made so far; the function returns the direction and
  the new number of calls.
\<close>

definition getNextGhostDirection ::
  "(nat \<Rightarrow> real) \<Rightarrow> nat \<Rightarrow> GhostEntity \<Rightarrow> Position \<Rightarrow> Direction \<Rightarrow> Position \<Rightarrow> Grid \<Rightarrow> int
     \<Rightarrow> Direction \<times> nat" where
  "getNextGhostDirection rand k ghost pacmanPos pacmanDir blinkyPos grid roundNum =
     (if g_status ghost = VULNERABLE then
        (let movesNoReverse = getAvailableMoves ghost grid False
         in if length movesNoReverse > 0
            then (movesNoReverse ! nat \<lfloor>rand k * real (length movesNoReverse)\<rfloor>, k + 1)
            else (getOppositeDirection (g_direction ghost), k))
      else
        (let target = getTargetPosition ghost pacmanPos pacmanDir blinkyPos roundNum;
             validMoves = getAvailableMoves ghost grid False
         in if length validMoves = 0 then (getOppositeDirection (g_direction ghost), k)
            else if length validMoves = 1 then (validMoves ! 0, k)
            else (chooseLoop (\<lambda>dir. getDistance (getNextTile (g_pos ghost) dir) target)
                    validMoves (validMoves ! 0) None, k)))"

section \<open>Integer-valued numbers as doubles\<close>

text \<open>
  The score, the points of a capture and the capture streak are JavaScript numbers that
  hold integers. A double holds an integer exactly when it needs at most 53 significant
  bits; a result that needs more is rounded to 53 bits, to the nearest value and to the
  even one at a tie, and a rounded result of magnitude \<open>2 ^ 1024\<close> or more is infinite.
\<close>

datatype jsnum = Num int | Infinity | NegInfinity | NaN

function bitLength :: "int \<Rightarrow> nat" where
  "bitLength n = (if n \<le> 0 then 0 else Suc (bitLength (n div 2)))"
  by pat_completeness auto
termination
  by (relation "measure nat") auto

declare bitLength.simps [simp del]

text \<open>\<open>v\<close> rounded to a multiple of \<open>u\<close>, a tie going to the even multiple.\<close>

definition roundHalfEven :: "int \<Rightarrow> int \<Rightarrow> int" where
  "roundHalfEven v u =
     (let q = v div u; r = v mod u
      in if 2 * r < u then q * u
         else if 2 * r > u then (q + 1) * u
         else if even q then q * u else (q + 1) * u)"

text \<open>The double nearest to the exact integer result \<open>v\<close> of an operation.\<close>

definition toDouble :: "int \<Rightarrow> jsnum" where
  "toDouble v =
     (let r = roundHalfEven v (2 ^ (bitLength \<bar>v\<bar> - 53))
      in if r \<ge> 2 ^ 1024 then Infinity
         else if r \<le> - (2 ^ 1024) then NegInfinity
         else Num r)"

text \<open>\<open>a + b\<close>, \<open>k * b\<close> for a positive constant \<open>k\<close>, and \<open>Math.pow(2, k)\<close>.\<close>

fun jsAdd :: "jsnum \<Rightarrow> jsnum \<Rightarrow> jsnum" where
  "jsAdd (Num a) (Num b) = toDouble (a + b)"
| "jsAdd NaN b = NaN"
| "jsAdd a NaN = NaN"
| "jsAdd Infinity NegInfinity = NaN"
| "jsAdd NegInfinity Infinity = NaN"
| "jsAdd Infinity b = Infinity"
| "jsAdd a Infinity = Infinity"
| "jsAdd NegInfinity b = NegInfinity"
| "jsAdd a NegInfinity = NegInfinity"

fun jsMul200 :: "jsnum \<Rightarrow> jsnum" where
  "jsMul200 (Num b) = toDouble (200 * b)"
| "jsMul200 Infinity = Infinity"
| "jsMul200 NegInfinity = NegInfinity"
| "jsMul200 NaN = NaN"

text \<open>\<open>Math.pow(2, k)\<close> for a natural number \<open>k\<close>.\<close>

definition jsPow2 :: "nat \<Rightarrow> jsnum" where
  "jsPow2 k = toDouble (2 ^ k)"

text \<open>
  \<open>n++\<close> on a counter that holds a natural number: the double nearest to \<open>n + 1\<close>
  (never infinite for a counter that holds a double).
\<close>

definition jsInc :: "nat \<Rightarrow> nat" where
  "jsInc n = (case toDouble (int n + 1) of Num m \<Rightarrow> nat m | _ \<Rightarrow> n + 1)"

section \<open>Engine state (the game screen component)\<close>

datatype InternalGameStatus = ROUND_STARTING | PLAYING | RESPAWNING | LEVEL_TRANSITION

record ScorePopup =
  pop_id :: real
  pop_x :: real
  pop_y :: real
  pop_score :: jsnum
  pop_timestamp :: real

record Pacman =
  p_pos :: Position
  p_dir :: Direction
  p_nextDir :: Direction
  p_lastMoveTime :: real

text \<open>
  \<open>GameStateRef\<close>, the object behind \<open>gameState.current\<close>. The field \<open>round\<close> is
  called \<open>roundNo\<close>. \<open>ghostsEatenStreak\<close> starts at 0 and is only incremented or
  set to 0: a \<open>nat\<close>. The score starts at 0 and only grows: a \<open>jsnum\<close>. \<open>powerPelletLocations\<close> holds the index pairs \<open>(x, y)\<close>.

  The last fields are not fields of the source; they record its effects on the outside:
  \<^item> \<open>ghostsArray\<close>: the identity of the array object held in \<open>ghosts\<close>
    (\<open>initRound\<close> stores a new array, everything else mutates the one it finds);
  \<^item> \<open>randomCalls\<close>: the number of calls of \<open>Math.random()\<close> so far;
  \<^item> \<open>saveScoreCalls\<close>, \<open>onGameOverCalls\<close>, \<open>onGameWinCalls\<close>: the arguments
    of the calls of \<open>saveScore\<close>, \<open>onGameOver\<close> and \<open>onGameWin\<close>, in order;
  \<^item> \<open>levelCompleteTimeouts\<close>: the number of callbacks that
    \<open>handleLevelComplete\<close> has scheduled with \<open>setTimeout\<close>.
  The presentation state \<open>uiState\<close> and the render trigger are not modelled.
\<close>

record GameState =
  grid :: Grid
  pacman :: Pacman
  ghosts :: "GhostEntity list"
  score :: jsnum
  lives :: int
  roundNo :: int
  vulnerableUntil :: real
  ghostsEatenStreak :: nat
  status :: InternalGameStatus
  pelletsRemaining :: int
  popups :: "ScorePopup list"
  powerPelletLocations :: "(int \<times> int) list"
  currentPowerPellets :: int
  pauseTimer :: real
  pauseDuration :: real
  pauseMessage :: string
  frameCount :: int
  lastFrameTime :: real
  ghostsArray :: nat
  randomCalls :: nat
  saveScoreCalls :: "(string \<times> jsnum) list"
  onGameOverCalls :: "jsnum list"
  onGameWinCalls :: "jsnum list"
  levelCompleteTimeouts :: nat

text \<open>The initial value of the ref, before the first \<open>initRound\<close>.\<close>

definition initialGameState :: GameState where
  "initialGameState =
     \<lparr>grid = INITIAL_MAP,
      pacman = \<lparr>p_pos = \<lparr>px = 9, py = 10\<rparr>, p_dir = RIGHT, p_nextDir = RIGHT,
                p_lastMoveTime = 0\<rparr>,
      ghosts = [], score = Num 0, lives = 3, roundNo = 1, vulnerableUntil = 0,
      ghostsEatenStreak = 0, status = ROUND_STARTING, pelletsRemaining = 0, popups = [],
      powerPelletLocations = [], currentPowerPellets = 0, pauseTimer = 0,
      pauseDuration = 0, pauseMessage = [], frameCount = 0, lastFrameTime = 0,
      ghostsArray = 0, randomCalls = 0, saveScoreCalls = [], onGameOverCalls = [],
      onGameWinCalls = [], levelCompleteTimeouts = 0\<rparr>"

subsection \<open>initRound\<close>

definition mkGhost :: "int \<times> string \<times> Position \<Rightarrow> GhostEntity" where
  "mkGhost g =
     \<lparr>g_id = fst g, g_pos = snd (snd g), g_color = fst (snd g), g_startPos = snd (snd g),
      g_direction = UP, g_status = NORMAL\<rparr>"

text \<open>
  The two nested \<open>forEach\<close> loops that count the pellets and collect the power-pellet
  locations: over the cells of row \<open>y\<close> from column \<open>x\<close>, and over the rows from \<open>y\<close>.
\<close>

fun scanRow ::
  "int \<Rightarrow> int \<Rightarrow> TileType list \<Rightarrow> int \<times> (int \<times> int) list \<Rightarrow> int \<times> (int \<times> int) list" where
  "scanRow y x [] acc = acc"
| "scanRow y x (cell # row) acc =
     scanRow y (x + 1) row
       (if cell = PELLET \<or> cell = POWER_PELLET then fst acc + 1 else fst acc,
        if cell = POWER_PELLET then snd acc @ [(x, y)] else snd acc)"

fun scanGrid ::
  "int \<Rightarrow> Grid \<Rightarrow> int \<times> (int \<times> int) list \<Rightarrow> int \<times> (int \<times> int) list" where
  "scanGrid y [] acc = acc"
| "scanGrid y (row # rows) acc = scanGrid (y + 1) rows (scanRow y 0 row acc)"

definition digitChar :: "nat \<Rightarrow> char" where
  "digitChar d = char_of (48 + d)"

fun showNat :: "nat \<Rightarrow> string" where
  "showNat n = (if n < 10 then [digitChar n] else showNat (n div 10) @ [digitChar (n mod 10)])"

definition showInt :: "int \<Rightarrow> string" where
  "showInt i = (if i < 0 then CHR ''-'' # showNat (nat (- i)) else showNat (nat i))"

text \<open>
  \<open>initRound(roundNum, keepScore)\<close>. \<open>config.ghostCount\<close> throws when \<open>roundNum\<close>
  is not a key of \<open>ROUND_CONFIGS\<close>, before anything is written: \<open>None\<close>.
\<close>

definition initRound :: "int \<Rightarrow> bool \<Rightarrow> GameState \<Rightarrow> GameState option" where
  "initRound roundNum keepScore s =
     (case ROUND_CONFIGS roundNum of
        None \<Rightarrow> None
      | Some config \<Rightarrow>
          (let pauseConfig =
                 (case ROUND_START_PAUSE roundNum of
                    None \<Rightarrow> (2000, ''READY'') | Some p \<Rightarrow> p);
               initialGhosts = map mkGhost (take (ghostCount config) INITIAL_GHOSTS);
               newGrid = INITIAL_MAP;
               scanned = scanGrid 0 newGrid (0, []);
               pelletCount = fst scanned;
               powerPelletLocs = snd scanned
           in Some (s\<lparr>grid := newGrid,
                      pelletsRemaining := pelletCount,
                      powerPelletLocations := powerPelletLocs,
                      currentPowerPellets := int (length powerPelletLocs),
                      pacman := \<lparr>p_pos = \<lparr>px = 9, py = 10\<rparr>, p_dir = RIGHT,
                                  p_nextDir = RIGHT, p_lastMoveTime = 0\<rparr>,
                      ghosts := initialGhosts,
                      ghostsArray := ghostsArray s + 1,
                      roundNo := roundNum,
                      vulnerableUntil := 0,
                      ghostsEatenStreak := 0,
                      popups := [],
                      status := ROUND_STARTING,
                      pauseTimer := fst pauseConfig,
                      pauseDuration := fst pauseConfig,
                      pauseMessage :=
                        ''ROUND '' @ showInt roundNum @ '' - '' @ snd pauseConfig,
                      score := (if \<not> keepScore then Num 0 else score s)\<rparr>)))"

subsection \<open>resetPositions\<close>

text \<open>
  The \<open>forEach\<close> of \<open>resetPositions\<close> over the ghosts from index \<open>idx\<close>.
  \<open>INITIAL_GHOSTS[idx]\<close> exists: the ghosts are a prefix of \<open>INITIAL_GHOSTS\<close>.
\<close>

fun resetGhosts :: "nat \<Rightarrow> GhostEntity list \<Rightarrow> GhostEntity list" where
  "resetGhosts idx [] = []"
| "resetGhosts idx (g # gs) =
     (if g_status g \<noteq> EATEN
      then g\<lparr>g_pos := snd (snd (INITIAL_GHOSTS ! idx)), g_direction := UP\<rparr>
      else g) # resetGhosts (idx + 1) gs"

definition resetPositions :: "GameState \<Rightarrow> GameState" where
  "resetPositions s =
     s\<lparr>pacman := (pacman s)\<lparr>p_pos := \<lparr>px = 9, py = 10\<rparr>, p_dir := RIGHT,
                              p_nextDir := RIGHT\<rparr>,
       ghosts := resetGhosts 0 (ghosts s),
       status := RESPAWNING,
       pauseTimer := 1500,
       pauseDuration := 1500,
       pauseMessage := ''READY!''\<rparr>"

subsection \<open>Input\<close>

definition keyDirection :: "string \<Rightarrow> Direction" where
  "keyDirection key =
     (if key = ''ArrowUp'' \<or> key = ''w'' \<or> key = ''W'' then UP
      else if key = ''ArrowDown'' \<or> key = ''s'' \<or> key = ''S'' then DOWN
      else if key = ''ArrowLeft'' \<or> key = ''a'' \<or> key = ''A'' then LEFT
      else if key = ''ArrowRight'' \<or> key = ''d'' \<or> key = ''D'' then RIGHT
      else NONE)"

definition handleKeyDown :: "string \<Rightarrow> GameState \<Rightarrow> GameState" where
  "handleKeyDown key s =
     (let newDir = keyDirection key
      in if newDir \<noteq> NONE then s\<lparr>pacman := (pacman s)\<lparr>p_nextDir := newDir\<rparr>\<rparr> else s)"

subsection \<open>Helpers\<close>

definition isValidMove :: "Grid \<Rightarrow> real \<Rightarrow> real \<Rightarrow> Direction \<Rightarrow> bool" where
  "isValidMove g x y dir =
     (let move = DIRECTIONS dir;
          nextX0 = round (x + of_int (fst move));
          nextY = round (y + of_int (snd move));
          nextX1 = (if nextX0 < 0 then MAP_WIDTH - 1 else nextX0);
          nextX = (if nextX1 \<ge> MAP_WIDTH then 0 else nextX1)
      in if nextY < 0 \<or> nextY \<ge> MAP_HEIGHT then False
         else (let tile = tileAt g nextX nextY
               in tile \<noteq> Some WALL \<and> tile \<noteq> Some GHOST_SPAWN))"

definition isCentered :: "Position \<Rightarrow> bool" where
  "isCentered pos =
     (\<bar>px pos - of_int (round (px pos))\<bar> < 0.05 \<and> \<bar>py pos - of_int (round (py pos))\<bar> < 0.05)"

section \<open>The tick: update\<close>

subsection \<open>Pause phases\<close>

text \<open>The body of the pause branch for \<open>ROUND_STARTING\<close> and \<open>RESPAWNING\<close>.\<close>

definition pauseTick :: "real \<Rightarrow> GameState \<Rightarrow> GameState" where
  "pauseTick delta s =
     (let s1 = s\<lparr>pauseTimer := pauseTimer s - delta\<rparr>
      in if pauseTimer s1 \<le> 0 then s1\<lparr>status := PLAYING\<rparr> else s1)"

subsection \<open>Player movement\<close>

text \<open>A. Immediate reversal.\<close>

definition immediateReversal :: "Pacman \<Rightarrow> Pacman" where
  "immediateReversal pac =
     (if getOppositeDirection (p_dir pac) = p_nextDir pac
      then pac\<lparr>p_dir := p_nextDir pac\<rparr> else pac)"

text \<open>Steps 1 and 2 at a tile centre: snap, then the buffered turn.\<close>

definition pacSnapTurn :: "Grid \<Rightarrow> int \<Rightarrow> int \<Rightarrow> Pacman \<Rightarrow> Pacman" where
  "pacSnapTurn g tX tY pac =
     (let pac1 = pac\<lparr>p_pos := \<lparr>px = of_int tX, py = of_int tY\<rparr>\<rparr>
      in if p_nextDir pac1 \<noteq> NONE \<and> p_nextDir pac1 \<noteq> p_dir pac1
            \<and> isValidMove g (of_int tX) (of_int tY) (p_nextDir pac1)
         then pac1\<lparr>p_dir := p_nextDir pac1\<rparr> else pac1)"

text \<open>The distance to the next integer boundary, with the fix for small values.\<close>

definition pacDistToNext :: "Pacman \<Rightarrow> real" where
  "pacDistToNext pac =
     (let move = DIRECTIONS (p_dir pac);
          X = px (p_pos pac);
          Y = py (p_pos pac);
          distToNext =
            (if fst move > 0 then of_int (\<lfloor>X\<rfloor> + 1) - X
             else if fst move < 0 then X - of_int (\<lceil>X\<rceil> - 1)
             else if snd move > 0 then of_int (\<lfloor>Y\<rfloor> + 1) - Y
             else if snd move < 0 then Y - of_int (\<lceil>Y\<rceil> - 1)
             else 0)
      in if distToNext \<le> 0.0001 then 1.0 else distToNext)"

definition pacAdvance :: "real \<Rightarrow> Pacman \<Rightarrow> Pacman" where
  "pacAdvance d pac =
     (let move = DIRECTIONS (p_dir pac)
      in pac\<lparr>p_pos := \<lparr>px = px (p_pos pac) + of_int (fst move) * d,
                        py = py (p_pos pac) + of_int (snd move) * d\<rparr>\<rparr>)"

text \<open>
  One run of the body of the movement loop. The result is whether the loop goes on
  (\<open>False\<close> after a \<open>break\<close>), the remaining distance and the player.
\<close>

definition pacStep :: "Grid \<Rightarrow> real \<Rightarrow> Pacman \<Rightarrow> bool \<times> real \<times> Pacman" where
  "pacStep g moveDist pac =
     (let tX = round (px (p_pos pac));
          tY = round (py (p_pos pac));
          atCenter = (\<bar>px (p_pos pac) - of_int tX\<bar> < 0.01 \<and> \<bar>py (p_pos pac) - of_int tY\<bar> < 0.01);
          pac1 = (if atCenter then pacSnapTurn g tX tY pac else pac)
      in if atCenter \<and> \<not> isValidMove g (of_int tX) (of_int tY) (p_dir pac1)
         then (False, 0, pac1)
         else if p_dir pac1 = NONE then (False, moveDist, pac1)
         else
           (let distToNext = pacDistToNext pac1
            in if moveDist \<ge> distToNext
               then (True, moveDist - distToNext, pacAdvance distToNext pac1)
               else (True, 0, pacAdvance moveDist pac1)))"

text \<open>B. The movement loop, \<open>while (moveDist > 0 && loops < 5)\<close>.\<close>

function pacmanLoop :: "Grid \<Rightarrow> nat \<Rightarrow> real \<Rightarrow> Pacman \<Rightarrow> Pacman" where
  "pacmanLoop g loops moveDist pac =
     (if moveDist > 0 \<and> loops < 5
      then (case pacStep g moveDist pac of
              (goOn, moveDist', pac') \<Rightarrow>
                if goOn then pacmanLoop g (loops + 1) moveDist' pac' else pac')
      else pac)"
  by pat_completeness auto
termination
  by (relation "measure (\<lambda>(g, loops, moveDist, pac). 5 - loops)") auto

declare pacmanLoop.simps [simp del]

text \<open>D. Tunnel logic of the player: the two assignments in sequence.\<close>

definition pacmanTunnel :: "Pacman \<Rightarrow> Pacman" where
  "pacmanTunnel pac =
     (let pac1 = (if px (p_pos pac) < -0.5
                  then pac\<lparr>p_pos := (p_pos pac)\<lparr>px := of_int MAP_WIDTH - 0.5\<rparr>\<rparr> else pac)
      in if px (p_pos pac1) > of_int MAP_WIDTH - 0.5
         then pac1\<lparr>p_pos := (p_pos pac1)\<lparr>px := -0.5\<rparr>\<rparr> else pac1)"

subsection \<open>Pellets\<close>

text \<open>The \<open>forEach\<close> over \<open>powerPelletLocations\<close> of the respawn logic.\<close>

fun respawnLoop :: "(int \<times> int) list \<Rightarrow> Grid \<Rightarrow> int \<Rightarrow> Grid \<times> int" where
  "respawnLoop [] g respawnCount = (g, respawnCount)"
| "respawnLoop (pos # rest) g respawnCount =
     (if tileAt g (fst pos) (snd pos) = Some EMPTY
      then respawnLoop rest (setTile g (fst pos) (snd pos) POWER_PELLET) (respawnCount + 1)
      else respawnLoop rest g respawnCount)"

definition ghostsAlive :: "GameState \<Rightarrow> bool" where
  "ghostsAlive s = list_ex (\<lambda>g. g_status g \<noteq> EATEN) (ghosts s)"

definition respawnLogic :: "GameState \<Rightarrow> GameState" where
  "respawnLogic s =
     (if currentPowerPellets s = 0 then
        (if ghostsAlive s then
           (let r = respawnLoop (powerPelletLocations s) (grid s) 0;
                s1 = s\<lparr>grid := fst r\<rparr>;
                respawnCount = snd r
            in if respawnCount > 0
               then s1\<lparr>currentPowerPellets := respawnCount,
                       pelletsRemaining := pelletsRemaining s1 + respawnCount\<rparr>
               else s1)
         else s)
      else s)"

definition makeVulnerable :: "GhostEntity \<Rightarrow> GhostEntity" where
  "makeVulnerable g = (if g_status g \<noteq> EATEN then g\<lparr>g_status := VULNERABLE\<rparr> else g)"

text \<open>E. Eat pellets.\<close>

definition eatPellets :: "real \<Rightarrow> GameState \<Rightarrow> GameState" where
  "eatPellets time s =
     (let pX = round (px (p_pos (pacman s)));
          pY = round (py (p_pos (pacman s)))
      in if pY \<ge> 0 \<and> pY < MAP_HEIGHT \<and> pX \<ge> 0 \<and> pX < MAP_WIDTH then
           (let item = tileAt (grid s) pX pY
            in if item = Some PELLET then
                 s\<lparr>score := jsAdd (score s) (Num 10),
                   grid := setTile (grid s) pX pY EMPTY,
                   pelletsRemaining := pelletsRemaining s - 1\<rparr>
               else if item = Some POWER_PELLET then
                 respawnLogic
                   (s\<lparr>score := jsAdd (score s) (Num 50),
                      grid := setTile (grid s) pX pY EMPTY,
                      pelletsRemaining := pelletsRemaining s - 1,
                      currentPowerPellets := currentPowerPellets s - 1,
                      vulnerableUntil := time + VULNERABLE_DURATION_MS,
                      ghostsEatenStreak := 0,
                      ghosts := map makeVulnerable (ghosts s)\<rparr>)
               else s)
         else s)"

subsection \<open>Adversary movement\<close>

text \<open>
  One run of the body of the movement loop of one ghost. \<open>blinkyPos\<close> is the position
  object of the leader, which the loop mutates in place when the ghost is the leader
  itself: it is given as a function of the ghost being moved. The result is the
  remaining distance, the ghost and the number of calls of \<open>Math.random()\<close>.
\<close>

definition ghostStep ::
  "(nat \<Rightarrow> real) \<Rightarrow> nat \<Rightarrow> Pacman \<Rightarrow> (GhostEntity \<Rightarrow> Position) \<Rightarrow> Grid \<Rightarrow> int \<Rightarrow> real
     \<Rightarrow> GhostEntity \<Rightarrow> real \<times> GhostEntity \<times> nat" where
  "ghostStep rand k pac blinkyPos g roundNum distRemaining ghost =
     (let horizontal = (g_direction ghost = LEFT \<or> g_direction ghost = RIGHT);
          currentVal = (if horizontal then px (g_pos ghost) else py (g_pos ghost));
          dirSign = (if g_direction ghost = RIGHT \<or> g_direction ghost = DOWN
                     then 1 else - 1 :: int);
          nextInteger = (if dirSign > 0 then \<lfloor>currentVal\<rfloor> + 1 else \<lceil>currentVal\<rceil> - 1);
          distToCenter = \<bar>of_int nextInteger - currentVal\<bar>
      in if distToCenter \<le> distRemaining then
           (let pos1 = (if horizontal then (g_pos ghost)\<lparr>px := of_int nextInteger\<rparr>
                        else (g_pos ghost)\<lparr>py := of_int nextInteger\<rparr>);
                ghost1 = ghost\<lparr>g_pos := \<lparr>px = of_int (round (px pos1)),
                                         py = of_int (round (py pos1))\<rparr>\<rparr>;
                r = getNextGhostDirection rand k ghost1 (p_pos pac) (p_dir pac)
                      (blinkyPos ghost1) g roundNum;
                nextDir = fst r
            in (distRemaining - distToCenter,
                if nextDir \<noteq> NONE then ghost1\<lparr>g_direction := nextDir\<rparr> else ghost1,
                snd r))
         else
           (0,
            ghost\<lparr>g_pos :=
              \<lparr>px = px (g_pos ghost) + of_int (fst (DIRECTIONS (g_direction ghost))) * distRemaining,
               py = py (g_pos ghost) + of_int (snd (DIRECTIONS (g_direction ghost))) * distRemaining\<rparr>\<rparr>,
            k))"

text \<open>\<open>while (distRemaining > 0 && safetyCounter < 2)\<close>.\<close>

function ghostLoop ::
  "(nat \<Rightarrow> real) \<Rightarrow> Pacman \<Rightarrow> (GhostEntity \<Rightarrow> Position) \<Rightarrow> Grid \<Rightarrow> int \<Rightarrow> nat \<Rightarrow> real
     \<Rightarrow> GhostEntity \<times> nat \<Rightarrow> GhostEntity \<times> nat" where
  "ghostLoop rand pac blinkyPos g roundNum safetyCounter distRemaining gk =
     (if distRemaining > 0 \<and> safetyCounter < 2
      then (case ghostStep rand (snd gk) pac blinkyPos g roundNum distRemaining (fst gk) of
              (distRemaining', ghost', k') \<Rightarrow>
                ghostLoop rand pac blinkyPos g roundNum (safetyCounter + 1) distRemaining'
                  (ghost', k'))
      else gk)"
  by pat_completeness auto
termination
  by (relation "measure (\<lambda>(rand, pac, blinkyPos, g, roundNum, safetyCounter, rest). 2 - safetyCounter)")
     auto

declare ghostLoop.simps [simp del]

text \<open>Tunnel logic of a ghost: the two assignments in sequence.\<close>

definition ghostTunnel :: "GhostEntity \<Rightarrow> GhostEntity" where
  "ghostTunnel ghost =
     (let ghost1 = (if px (g_pos ghost) < -0.5
                    then ghost\<lparr>g_pos := (g_pos ghost)\<lparr>px := of_int MAP_WIDTH - 0.5\<rparr>\<rparr>
                    else ghost)
      in if px (g_pos ghost1) > of_int MAP_WIDTH - 0.5
         then ghost1\<lparr>g_pos := (g_pos ghost1)\<lparr>px := -0.5\<rparr>\<rparr> else ghost1)"

text \<open>The body of the \<open>forEach\<close> of the ghost logic, for one ghost.\<close>

definition moveGhost ::
  "(nat \<Rightarrow> real) \<Rightarrow> Pacman \<Rightarrow> (GhostEntity \<Rightarrow> Position) \<Rightarrow> Grid \<Rightarrow> int \<Rightarrow> real
     \<Rightarrow> GhostEntity \<times> nat \<Rightarrow> GhostEntity \<times> nat" where
  "moveGhost rand pac blinkyPos g roundNum ghostMoveFactor gk =
     (if g_status (fst gk) = EATEN then gk
      else (let r = ghostLoop rand pac blinkyPos g roundNum 0 ghostMoveFactor gk
            in (ghostTunnel (fst r), snd r)))"

fun findIndex :: "('a \<Rightarrow> bool) \<Rightarrow> 'a list \<Rightarrow> nat option" where
  "findIndex P [] = None"
| "findIndex P (a # as) =
     (if P a then Some 0 else map_option Suc (findIndex P as))"

text \<open>
  \<open>state.ghosts.find(g => g.id === 1) || state.ghosts[0]\<close>, as the index of the
  ghost found; \<open>None\<close> when the array is empty.
\<close>

definition blinkyIndex :: "GhostEntity list \<Rightarrow> nat option" where
  "blinkyIndex gs =
     (case findIndex (\<lambda>g. g_id g = 1) gs of
        Some i \<Rightarrow> Some i
      | None \<Rightarrow> (if gs = [] then None else Some 0))"

text \<open>
  The \<open>forEach\<close> over the ghosts, from index \<open>i\<close> for \<open>n\<close> more ghosts. \<open>blinkyPos\<close>
  aliases the leader's position object, so a later ghost sees the leader's position
  after the leader's own move of this tick.
\<close>

fun ghostsForEach ::
  "(nat \<Rightarrow> real) \<Rightarrow> Pacman \<Rightarrow> nat option \<Rightarrow> Grid \<Rightarrow> int \<Rightarrow> real \<Rightarrow> nat \<Rightarrow> nat
     \<Rightarrow> GhostEntity list \<times> nat \<Rightarrow> GhostEntity list \<times> nat" where
  "ghostsForEach rand pac b g roundNum ghostMoveFactor 0 i acc = acc"
| "ghostsForEach rand pac b g roundNum ghostMoveFactor (Suc n) i acc =
     (let gs = fst acc;
          blinkyPos =
            (\<lambda>cur. case b of
                      None \<Rightarrow> \<lparr>px = 0, py = 0\<rparr>
                    | Some j \<Rightarrow> if j = i then g_pos cur else g_pos (gs ! j));
          r = moveGhost rand pac blinkyPos g roundNum ghostMoveFactor (gs ! i, snd acc)
      in ghostsForEach rand pac b g roundNum ghostMoveFactor n (i + 1) (gs[i := fst r], snd r))"

definition ghostLogic :: "(nat \<Rightarrow> real) \<Rightarrow> real \<Rightarrow> real \<Rightarrow> GameState \<Rightarrow> GameState" where
  "ghostLogic rand delta pacSpeedMs s =
     (let moveFactor = delta / pacSpeedMs;
          ghostSpeedMult =
            (if roundNo s = 1 then 0.85 else if roundNo s = 2 then 0.95 else 1.05);
          ghostMoveFactor = moveFactor * ghostSpeedMult;
          r = ghostsForEach rand (pacman s) (blinkyIndex (ghosts s)) (grid s) (roundNo s)
                ghostMoveFactor (length (ghosts s)) 0 (ghosts s, randomCalls s)
      in s\<lparr>ghosts := fst r, randomCalls := snd r\<rparr>)"

subsection \<open>Timers\<close>

definition makeNormal :: "GhostEntity \<Rightarrow> GhostEntity" where
  "makeNormal g = (if g_status g = VULNERABLE then g\<lparr>g_status := NORMAL\<rparr> else g)"

definition vulnerabilityTimer :: "real \<Rightarrow> GameState \<Rightarrow> GameState" where
  "vulnerabilityTimer time s =
     (if vulnerableUntil s > 0 \<and> time > vulnerableUntil s
      then s\<lparr>vulnerableUntil := 0,
             ghostsEatenStreak := 0,
             ghosts := map makeNormal (ghosts s)\<rparr>
      else s)"

definition cleanupPopups :: "real \<Rightarrow> GameState \<Rightarrow> GameState" where
  "cleanupPopups time s =
     (if length (popups s) > 0
      then s\<lparr>popups := filter (\<lambda>p. time - pop_timestamp p < 1000) (popups s)\<rparr>
      else s)"

subsection \<open>Death, demotion and level completion\<close>

definition handleDemotionOrGameOver :: "string \<Rightarrow> GameState \<Rightarrow> GameState option" where
  "handleDemotionOrGameOver teamName s0 =
     (let s = s0\<lparr>status := LEVEL_TRANSITION\<rparr>
      in if roundNo s = 1
         then Some (s\<lparr>saveScoreCalls := saveScoreCalls s @ [(teamName, score s)],
                      onGameOverCalls := onGameOverCalls s @ [score s]\<rparr>)
         else initRound 1 True (s\<lparr>lives := 3\<rparr>))"

definition handleDeath :: "string \<Rightarrow> GameState \<Rightarrow> GameState option" where
  "handleDeath teamName s0 =
     (let s = s0\<lparr>lives := lives s0 - 1\<rparr>
      in if lives s \<le> 0 then handleDemotionOrGameOver teamName s
         else Some (resetPositions s))"

definition handleLevelComplete :: "GameState \<Rightarrow> GameState" where
  "handleLevelComplete s =
     s\<lparr>status := LEVEL_TRANSITION, levelCompleteTimeouts := levelCompleteTimeouts s + 1\<rparr>"

text \<open>The callback that \<open>handleLevelComplete\<close> schedules, run 2000 ms later.\<close>

definition levelCompleteTimeout :: "string \<Rightarrow> GameState \<Rightarrow> GameState option" where
  "levelCompleteTimeout teamName s =
     (if roundNo s < 3 then initRound (roundNo s + 1) True s
      else Some (s\<lparr>saveScoreCalls := saveScoreCalls s @ [(teamName, score s)],
                   onGameWinCalls := onGameWinCalls s @ [score s]\<rparr>))"

subsection \<open>Collisions\<close>

definition COLLISION_DIST :: real where
  "COLLISION_DIST = 0.5"

text \<open>
  The body of the collision \<open>forEach\<close> for the ghost at index \<open>i\<close>. The loop runs over
  the array that \<open>state.ghosts\<close> held when the loop began. \<open>handleDeath\<close> can reach
  \<open>initRound\<close>, which stores a new array in the state; from then on the loop still
  visits the old array, which is \<open>Some\<close> in the first component (\<open>None\<close> as long as
  the state still holds the array of the loop).
\<close>

definition collideGhost ::
  "(nat \<Rightarrow> real) \<Rightarrow> string \<Rightarrow> real \<Rightarrow> nat \<Rightarrow> GhostEntity list option \<times> GameState
     \<Rightarrow> (GhostEntity list option \<times> GameState) option" where
  "collideGhost rand teamName time i ds =
     (let det = fst ds;
          s = snd ds;
          arr = (case det of None \<Rightarrow> ghosts s | Some a \<Rightarrow> a);
          ghost = arr ! i
      in if g_status ghost = EATEN then Some ds
         else
           (let dx = px (g_pos ghost) - px (p_pos (pacman s));
                dy = py (g_pos ghost) - py (p_pos (pacman s));
                dist = sqrt (dx * dx + dy * dy)
            in if dist < COLLISION_DIST then
                 (if g_status ghost = VULNERABLE then
                    (let arr' = arr[i := ghost\<lparr>g_status := EATEN\<rparr>];
                         streak = jsInc (ghostsEatenStreak s);
                         multiplier = jsPow2 (streak - 1);
                         points = jsMul200 multiplier;
                         s1 = s\<lparr>ghostsEatenStreak := streak,
                                score := jsAdd (score s) points,
                                popups := popups s @
                                  [\<lparr>pop_id = rand (randomCalls s), pop_x = px (g_pos ghost),
                                    pop_y = py (g_pos ghost), pop_score = points,
                                    pop_timestamp = time\<rparr>],
                                randomCalls := randomCalls s + 1\<rparr>
                     in Some (case det of
                                None \<Rightarrow> (None, s1\<lparr>ghosts := arr'\<rparr>)
                              | Some a \<Rightarrow> (Some arr', s1)))
                  else
                    (case handleDeath teamName s of
                       None \<Rightarrow> None
                     | Some s' \<Rightarrow>
                         Some (if det = None \<and> ghostsArray s' \<noteq> ghostsArray s
                               then (Some arr, s') else (det, s'))))
               else Some ds))"

fun collisionLoop ::
  "(nat \<Rightarrow> real) \<Rightarrow> string \<Rightarrow> real \<Rightarrow> nat \<Rightarrow> nat \<Rightarrow> GhostEntity list option \<times> GameState
     \<Rightarrow> (GhostEntity list option \<times> GameState) option" where
  "collisionLoop rand teamName time 0 i ds = Some ds"
| "collisionLoop rand teamName time (Suc n) i ds =
     (case collideGhost rand teamName time i ds of
        None \<Rightarrow> None
      | Some ds' \<Rightarrow> collisionLoop rand teamName time n (i + 1) ds')"

definition collisions :: "(nat \<Rightarrow> real) \<Rightarrow> string \<Rightarrow> real \<Rightarrow> GameState \<Rightarrow> GameState option" where
  "collisions rand teamName time s =
     map_option snd (collisionLoop rand teamName time (length (ghosts s)) 0 (None, s))"

subsection \<open>update\<close>

text \<open>
  \<open>update(time)\<close>. \<open>None\<close> is the exception thrown when \<open>state.round\<close> is not a key
  of \<open>ROUND_CONFIGS\<close>.
\<close>

definition update :: "(nat \<Rightarrow> real) \<Rightarrow> string \<Rightarrow> real \<Rightarrow> GameState \<Rightarrow> GameState option" where
  "update rand teamName time state0 =
     (let delta = time - lastFrameTime state0;
          state = state0\<lparr>lastFrameTime := time, frameCount := frameCount state0 + 1\<rparr>
      in if status state = ROUND_STARTING \<or> status state = RESPAWNING
            \<or> status state = LEVEL_TRANSITION
         then Some (if status state \<noteq> LEVEL_TRANSITION then pauseTick delta state else state)
         else
           (case ROUND_CONFIGS (roundNo state) of
              None \<Rightarrow> None
            | Some config \<Rightarrow>
                (let pacSpeedMs = speed config;
                     moveDist = delta / pacSpeedMs;
                     s1 = state\<lparr>pacman := immediateReversal (pacman state)\<rparr>;
                     s2 = s1\<lparr>pacman := pacmanLoop (grid s1) 0 moveDist (pacman s1)\<rparr>;
                     s3 = s2\<lparr>pacman := pacmanTunnel (pacman s2)\<rparr>;
                     s4 = eatPellets time s3
                 in if pelletsRemaining s4 = 0 then Some (handleLevelComplete s4)
                    else
                      (let s5 = ghostLogic rand delta pacSpeedMs s4;
                           s6 = vulnerabilityTimer time s5;
                           s7 = cleanupPopups time s6
                       in collisions rand teamName time s7))))"

section \<open>Runs of the engine and the measures of the statements\<close>

text \<open>The number of tiles of a grid whose type is \<open>PELLET\<close> or \<open>POWER_PELLET\<close>.\<close>

definition isPelletTile :: "TileType \<Rightarrow> bool" where
  "isPelletTile t = (t = PELLET \<or> t = POWER_PELLET)"

definition countPellets :: "Grid \<Rightarrow> nat" where
  "countPellets g = sum_list (map (\<lambda>row. length (filter isPelletTile row)) g)"

definition pelletInvariant :: "GameState \<Rightarrow> bool" where
  "pelletInvariant s = (pelletsRemaining s = int (countPellets (grid s)))"

text \<open>A grid has the rows and columns of \<open>INITIAL_MAP\<close>.\<close>

definition gridShape :: "Grid \<Rightarrow> bool" where
  "gridShape g = (map length g = map length INITIAL_MAP)"

text \<open>
  Between two states: no level-complete callback was scheduled, and the grid and the
  pellet counter are either both as before or both those of a freshly initialised round.
\<close>

definition pelletsKeptOrReset :: "GameState \<Rightarrow> GameState \<Rightarrow> bool" where
  "pelletsKeptOrReset s s' =
     (levelCompleteTimeouts s' = levelCompleteTimeouts s
      \<and> (grid s' = grid s \<and> pelletsRemaining s' = pelletsRemaining s
         \<or> grid s' = INITIAL_MAP \<and> pelletsRemaining s' = int (countPellets INITIAL_MAP)))"



text \<open>The collision test of the collision pass, and a ghost that the pass captures.\<close>

definition nearPlayer :: "Pacman \<Rightarrow> GhostEntity \<Rightarrow> bool" where
  "nearPlayer pac ghost =
     (sqrt ((px (g_pos ghost) - px (p_pos pac)) * (px (g_pos ghost) - px (p_pos pac))
            + (py (g_pos ghost) - py (p_pos pac)) * (py (g_pos ghost) - py (p_pos pac)))
        < COLLISION_DIST)"







text \<open>
  What the host does to the engine: an animation frame at a time stamp, a key press,
  and the callback scheduled by \<open>handleLevelComplete\<close>. A run applies a list of
  them in order and stops at the first exception.
\<close>

datatype Event = Tick real | KeyDown string | LevelCompleteTimeout

fun step :: "(nat \<Rightarrow> real) \<Rightarrow> string \<Rightarrow> Event \<Rightarrow> GameState \<Rightarrow> GameState option" where
  "step rand teamName (Tick time) s = update rand teamName time s"
| "step rand teamName (KeyDown key) s = Some (handleKeyDown key s)"
| "step rand teamName LevelCompleteTimeout s = levelCompleteTimeout teamName s"

fun run :: "(nat \<Rightarrow> real) \<Rightarrow> string \<Rightarrow> Event list \<Rightarrow> GameState \<Rightarrow> GameState option" where
  "run rand teamName [] s = Some s"
| "run rand teamName (e # es) s =
     (case step rand teamName e s of None \<Rightarrow> None | Some s' \<Rightarrow> run rand teamName es s')"

section \<open>Example states\<close>

text \<open>A ghost with identity \<open>i\<close> at \<open>(x, y)\<close> heading \<open>dir\<close> in status \<open>st\<close>.\<close>

definition exampleGhost :: "int \<Rightarrow> real \<Rightarrow> real \<Rightarrow> Direction \<Rightarrow> GhostStatus \<Rightarrow> GhostEntity" where
  "exampleGhost i x y dir st =
     \<lparr>g_id = i, g_pos = \<lparr>px = x, py = y\<rparr>, g_color = [], g_startPos = \<lparr>px = 9, py = 8\<rparr>,
      g_direction = dir, g_status = st\<rparr>"

text \<open>
  A state of round 1 in play, with the grid and the counters of a fresh round, the
  player at \<open>(x, y)\<close> heading \<open>dir\<close>, and the ghosts \<open>gs\<close>.
\<close>

definition exampleState :: "real \<Rightarrow> real \<Rightarrow> Direction \<Rightarrow> GhostEntity list \<Rightarrow> GameState" where
  "exampleState x y dir gs =
     initialGameState
       \<lparr>pacman := \<lparr>p_pos = \<lparr>px = x, py = y\<rparr>, p_dir = dir, p_nextDir = dir,
                   p_lastMoveTime = 0\<rparr>,
        ghosts := gs, status := PLAYING, pelletsRemaining := 127,
        powerPelletLocations := [(1, 1), (17, 1), (1, 14), (17, 14)],
        currentPowerPellets := 4\<rparr>"

text \<open>
  The grid of a round in which every power pellet but the one at (1, 1) has been eaten.
\<close>

definition lastPowerPelletGrid :: Grid where
  "lastPowerPelletGrid =
     setTile (setTile (setTile INITIAL_MAP 17 1 EMPTY) 1 14 EMPTY) 17 14 EMPTY"

text \<open>A grid whose only pellet is at (10, 10).\<close>

definition onePelletGrid :: Grid where
  "onePelletGrid =
     setTile (map (map (\<lambda>t. if isPelletTile t then EMPTY else t)) INITIAL_MAP) 10 10 PELLET"

text \<open>
  The state of a game of round 1 on its last life: the player has gone up from the start
  tile and waits at (9, 9) below the ghost house, nothing has been eaten, and the second
  and third ghost come down the column together, 0.55 tiles above the player.
\<close>

definition lastLifeState :: GameState where
  "lastLifeState =
     initialGameState
       \<lparr>pacman := \<lparr>p_pos = \<lparr>px = 9, py = 9\<rparr>, p_dir = UP, p_nextDir = UP,
                   p_lastMoveTime = 0\<rparr>,
        ghosts :=
          [(mkGhost (INITIAL_GHOSTS ! 0))
             \<lparr>g_pos := \<lparr>px = 2747 / 325, py = 8\<rparr>, g_direction := RIGHT\<rparr>,
           (mkGhost (INITIAL_GHOSTS ! 1))
             \<lparr>g_pos := \<lparr>px = 9, py = 2747 / 325\<rparr>, g_direction := DOWN\<rparr>,
           (mkGhost (INITIAL_GHOSTS ! 2))
             \<lparr>g_pos := \<lparr>px = 9, py = 2747 / 325\<rparr>, g_direction := DOWN\<rparr>],
        lives := 1, status := PLAYING, pelletsRemaining := 127,
        powerPelletLocations := [(1, 1), (17, 1), (1, 14), (17, 14)],
        currentPowerPellets := 4, pauseTimer := - 4, pauseDuration := 1500,
        pauseMessage := ''READY!'', frameCount := 414, lastFrameTime := 6624,
        ghostsArray := 1\<rparr>"

section \<open>Basic facts\<close>

lemma MAP_WIDTH_eq: "MAP_WIDTH = 19"
  by (simp add: MAP_WIDTH_def INITIAL_MAP_def)

lemma MAP_HEIGHT_eq: "MAP_HEIGHT = 16"
  by (simp add: MAP_HEIGHT_def INITIAL_MAP_def)

lemma INITIAL_MAP_8_8: "tileAt INITIAL_MAP 8 8 = Some GHOST_SPAWN"
  by (simp add: tileAt_def INITIAL_MAP_def tileOfCode_def)

lemma set_getAvailableMoves:
  "set (getAvailableMoves ghost g allow) \<subseteq> {UP, LEFT, DOWN, RIGHT}"
  by (auto simp: getAvailableMoves_def checkOrder_def)

lemma mem_getAvailableMoves:
  "dir \<in> set (getAvailableMoves ghost g allow) \<longleftrightarrow> dir \<noteq> NONE \<and> moveAdmitted ghost g allow dir"
  by (cases dir) (auto simp: getAvailableMoves_def checkOrder_def)

lemma gridShape_in_range:
  assumes "gridShape g" and "0 \<le> x" and "x < MAP_WIDTH" and "0 \<le> y" and "y < MAP_HEIGHT"
  shows "\<exists>t. tileAt g x y = Some t"
proof -
  have len: "length g = length INITIAL_MAP"
    using assms(1) unfolding gridShape_def by (rule map_eq_imp_length_eq)
  have ny: "nat y < length INITIAL_MAP"
    using assms(4,5) by (simp add: MAP_HEIGHT_def)
  have "length (g ! nat y) = map length g ! nat y" using ny len by simp
  also have "\<dots> = length (INITIAL_MAP ! nat y)"
    using assms(1) ny by (simp add: gridShape_def)
  also have "\<dots> = 19"
  proof -
    have "\<forall>row\<in>set INITIAL_MAP. length row = 19" by (simp add: INITIAL_MAP_def)
    then show ?thesis using ny nth_mem by blast
  qed
  finally have "length (g ! nat y) = 19" .
  then show ?thesis
    using assms(2-5) len by (simp add: tileAt_def MAP_WIDTH_eq MAP_HEIGHT_def)
qed

section \<open>Doubles that hold integers\<close>











section \<open>Walkability (C2)\<close>

text \<open>
  C2, as stated, fails for the player: the tile at column 8 of row 8 of the initial map
  is the spawn marker \<open>GHOST_SPAWN\<close>, which is not a wall, and \<open>isValidMove\<close> refuses
  the move RIGHT from the tile (7, 8) onto it.
\<close>

theorem C2_counterexample:
  "tileAt INITIAL_MAP 8 8 = Some GHOST_SPAWN \<and> GHOST_SPAWN \<noteq> WALL
     \<and> \<not> isValidMove INITIAL_MAP 7 8 RIGHT"
  by (simp add: isValidMove_def INITIAL_MAP_8_8 MAP_WIDTH_eq MAP_HEIGHT_eq)

text \<open>
  C2 (amended): take an integer tile, a cardinal direction, the destination column
  \<open>nextX\<close> and row \<open>nextY\<close> one step away, and the column \<open>wrapX\<close> that the player's
  check reads (\<open>MAP_WIDTH - 1\<close> for a column below 0, 0 for a column of \<open>MAP_WIDTH\<close> or
  more, \<open>nextX\<close> otherwise).
  \<^item> The adversaries' available-move computation admits the direction exactly when it is
    not the excluded reverse and either the destination is inside the map and its tile is
    not \<open>WALL\<close> (so \<open>GHOST_SPAWN\<close> is walkable for them), or the destination column is
    outside the horizontal bounds (tunnel entry).
  \<^item> The player's move-validity check admits it exactly when the destination row is
    inside the vertical bounds and the tile at \<open>(wrapX, nextY)\<close> is neither \<open>WALL\<close> nor
    \<open>GHOST_SPAWN\<close>.
  \<^item> On a grid with the shape of the initial map that tile exists.
\<close>

theorem C2_walkability:
  assumes "dir \<noteq> NONE"
    and "tX = round (px (g_pos ghost))" and "tY = round (py (g_pos ghost))"
    and "nextX = tX + fst (DIRECTIONS dir)" and "nextY = tY + snd (DIRECTIONS dir)"
    and "wrapX = (if nextX < 0 then MAP_WIDTH - 1 else if nextX \<ge> MAP_WIDTH then 0 else nextX)"
  shows "(dir \<in> set (getAvailableMoves ghost g allowReverse) \<longleftrightarrow>
            (allowReverse \<or> dir \<noteq> getOppositeDirection (g_direction ghost))
            \<and> (if 0 \<le> nextY \<and> nextY < MAP_HEIGHT \<and> 0 \<le> nextX \<and> nextX < MAP_WIDTH
               then tileAt g nextX nextY \<noteq> Some WALL
               else nextX < 0 \<or> MAP_WIDTH \<le> nextX))
       \<and> (isValidMove g (of_int tX) (of_int tY) dir \<longleftrightarrow>
            0 \<le> nextY \<and> nextY < MAP_HEIGHT
            \<and> tileAt g wrapX nextY \<noteq> Some WALL \<and> tileAt g wrapX nextY \<noteq> Some GHOST_SPAWN)
       \<and> (gridShape g \<and> 0 \<le> nextY \<and> nextY < MAP_HEIGHT \<longrightarrow> (\<exists>t. tileAt g wrapX nextY = Some t))"
proof (intro conjI impI)
  show "dir \<in> set (getAvailableMoves ghost g allowReverse) \<longleftrightarrow>
            (allowReverse \<or> dir \<noteq> getOppositeDirection (g_direction ghost))
            \<and> (if 0 \<le> nextY \<and> nextY < MAP_HEIGHT \<and> 0 \<le> nextX \<and> nextX < MAP_WIDTH
               then tileAt g nextX nextY \<noteq> Some WALL
               else nextX < 0 \<or> MAP_WIDTH \<le> nextX)"
    using assms(1-5) by (auto simp: mem_getAvailableMoves moveAdmitted_def Let_def)
next
  have rx: "round (real_of_int tX + real_of_int (fst (DIRECTIONS dir))) = nextX"
    using assms(4) by (metis of_int_add round_of_int)
  have ry: "round (real_of_int tY + real_of_int (snd (DIRECTIONS dir))) = nextY"
    using assms(5) by (metis of_int_add round_of_int)
  have w: "(if (if nextX < 0 then MAP_WIDTH - 1 else nextX) \<ge> MAP_WIDTH then 0
            else (if nextX < 0 then MAP_WIDTH - 1 else nextX)) = wrapX"
    using assms(6) by (simp add: MAP_WIDTH_eq)
  show "isValidMove g (of_int tX) (of_int tY) dir \<longleftrightarrow>
            0 \<le> nextY \<and> nextY < MAP_HEIGHT
            \<and> tileAt g wrapX nextY \<noteq> Some WALL \<and> tileAt g wrapX nextY \<noteq> Some GHOST_SPAWN"
    unfolding isValidMove_def Let_def rx ry w by auto
next
  assume a: "gridShape g \<and> 0 \<le> nextY \<and> nextY < MAP_HEIGHT"
  have "0 \<le> wrapX \<and> wrapX < MAP_WIDTH"
    using assms(6) by (simp add: MAP_WIDTH_eq)
  then show "\<exists>t. tileAt g wrapX nextY = Some t"
    using a gridShape_in_range by blast
qed

text \<open>
  Witness: the spawn marker at (8, 8) of the initial map, entered from (7, 8): a ghost
  may, the player may not.
\<close>

theorem C2_witness:
  "RIGHT \<in> set (getAvailableMoves
      \<lparr>g_id = 1, g_pos = \<lparr>px = 7, py = 8\<rparr>, g_color = [], g_startPos = \<lparr>px = 9, py = 8\<rparr>,
       g_direction = RIGHT, g_status = NORMAL\<rparr> INITIAL_MAP False)
   \<and> \<not> isValidMove INITIAL_MAP 7 8 RIGHT
   \<and> (\<exists>t. tileAt INITIAL_MAP 8 8 = Some t)"
proof -
  let ?gh = "\<lparr>g_id = 1, g_pos = \<lparr>px = 7, py = 8\<rparr>, g_color = [], g_startPos = \<lparr>px = 9, py = 8\<rparr>,
       g_direction = RIGHT, g_status = NORMAL\<rparr>"
  have h1: "RIGHT \<noteq> NONE" by simp
  have h2: "(7::int) = round (px (g_pos ?gh))" and h3: "(8::int) = round (py (g_pos ?gh))"
    by simp_all
  have h4: "(8::int) = 7 + fst (DIRECTIONS RIGHT)" and h5: "(8::int) = 8 + snd (DIRECTIONS RIGHT)"
    by simp_all
  have h6: "(8::int) = (if (8::int) < 0 then MAP_WIDTH - 1 else if 8 \<ge> MAP_WIDTH then 0 else 8)"
    by (simp add: MAP_WIDTH_eq)
  note main = C2_walkability [OF h1 h2 h3 h4 h5 h6, where g = INITIAL_MAP and allowReverse = False]
  have a: "RIGHT \<in> set (getAvailableMoves ?gh INITIAL_MAP False)"
    using main by (simp add: INITIAL_MAP_8_8 MAP_WIDTH_eq MAP_HEIGHT_eq)
  have b: "\<not> isValidMove INITIAL_MAP 7 8 RIGHT"
    using main by (simp add: INITIAL_MAP_8_8)
  have c: "\<exists>t. tileAt INITIAL_MAP 8 8 = Some t"
    using main by (simp add: gridShape_def MAP_HEIGHT_eq)
  show ?thesis using a b c by simp
qed

section \<open>Tunnel wraparound (C3)\<close>




section \<open>Choice at an intersection (C6)\<close>

lemma chooseLoop_Some:
  "chooseLoop D xs b (Some v) = r \<Longrightarrow>
     (r = b \<and> (\<forall>x\<in>set xs. v \<le> D x))
   \<or> (\<exists>ys zs. xs = ys @ r # zs \<and> D r < v \<and> (\<forall>y\<in>set ys. D r < D y) \<and> (\<forall>z\<in>set zs. D r \<le> D z))"
proof (induction xs arbitrary: b v)
  case Nil
  then show ?case by simp
next
  case (Cons x xs)
  show ?case
  proof (cases "D x < v")
    case True
    then have "chooseLoop D xs x (Some (D x)) = r"
      using Cons.prems by (simp add: Let_def)
    from Cons.IH [OF this] show ?thesis
    proof
      assume "r = x \<and> (\<forall>y\<in>set xs. D x \<le> D y)"
      then have "x # xs = [] @ r # xs \<and> D r < v \<and> (\<forall>y\<in>set []. D r < D y) \<and> (\<forall>z\<in>set xs. D r \<le> D z)"
        using True by simp
      then show ?thesis by blast
    next
      assume "\<exists>ys zs. xs = ys @ r # zs \<and> D r < D x \<and> (\<forall>y\<in>set ys. D r < D y) \<and> (\<forall>z\<in>set zs. D r \<le> D z)"
      then obtain ys zs where h: "xs = ys @ r # zs" "D r < D x" "\<forall>y\<in>set ys. D r < D y" "\<forall>z\<in>set zs. D r \<le> D z"
        by blast
      then have "x # xs = (x # ys) @ r # zs \<and> D r < v \<and> (\<forall>y\<in>set (x # ys). D r < D y) \<and> (\<forall>z\<in>set zs. D r \<le> D z)"
        using True by auto
      then show ?thesis by blast
    qed
  next
    case False
    then have "chooseLoop D xs b (Some v) = r"
      using Cons.prems by (simp add: Let_def)
    from Cons.IH [OF this] show ?thesis
    proof
      assume "r = b \<and> (\<forall>y\<in>set xs. v \<le> D y)"
      then show ?thesis using False by auto
    next
      assume "\<exists>ys zs. xs = ys @ r # zs \<and> D r < v \<and> (\<forall>y\<in>set ys. D r < D y) \<and> (\<forall>z\<in>set zs. D r \<le> D z)"
      then obtain ys zs where h: "xs = ys @ r # zs" "D r < v" "\<forall>y\<in>set ys. D r < D y" "\<forall>z\<in>set zs. D r \<le> D z"
        by blast
      then have "x # xs = (x # ys) @ r # zs \<and> D r < v \<and> (\<forall>y\<in>set (x # ys). D r < D y) \<and> (\<forall>z\<in>set zs. D r \<le> D z)"
        using False by auto
      then show ?thesis by blast
    qed
  qed
qed

lemma chooseLoop_first_min:
  assumes "xs \<noteq> []"
  shows "\<exists>ys zs. xs = ys @ chooseLoop D xs b None # zs
           \<and> (\<forall>y\<in>set ys. D (chooseLoop D xs b None) < D y)
           \<and> (\<forall>z\<in>set zs. D (chooseLoop D xs b None) \<le> D z)"
proof -
  obtain x rest where xs: "xs = x # rest" using assms by (cases xs) auto
  define r where "r = chooseLoop D xs b None"
  have "chooseLoop D rest x (Some (D x)) = r"
    by (simp add: r_def xs Let_def)
  from chooseLoop_Some [OF this]
  have "\<exists>ys zs. xs = ys @ r # zs \<and> (\<forall>y\<in>set ys. D r < D y) \<and> (\<forall>z\<in>set zs. D r \<le> D z)"
  proof
    assume "r = x \<and> (\<forall>y\<in>set rest. D x \<le> D y)"
    then have "xs = [] @ r # rest \<and> (\<forall>y\<in>set []. D r < D y) \<and> (\<forall>z\<in>set rest. D r \<le> D z)"
      by (simp add: xs)
    then show ?thesis by blast
  next
    assume "\<exists>ys zs. rest = ys @ r # zs \<and> D r < D x \<and> (\<forall>y\<in>set ys. D r < D y) \<and> (\<forall>z\<in>set zs. D r \<le> D z)"
    then obtain ys zs where h: "rest = ys @ r # zs" "D r < D x" "\<forall>y\<in>set ys. D r < D y" "\<forall>z\<in>set zs. D r \<le> D z"
      by blast
    then have "xs = (x # ys) @ r # zs \<and> (\<forall>y\<in>set (x # ys). D r < D y) \<and> (\<forall>z\<in>set zs. D r \<le> D z)"
      by (simp add: xs)
    then show ?thesis by blast
  qed
  then show ?thesis by (simp add: r_def)
qed

lemma subseq_getAvailableMoves:
  "subseq (getAvailableMoves ghost g allow) [UP, LEFT, DOWN, RIGHT]"
  unfolding getAvailableMoves_def checkOrder_def by (rule subseq_filter_left)

lemma getNextGhostDirection_intersection:
  assumes "g_status ghost \<noteq> VULNERABLE"
    and "2 \<le> length (getAvailableMoves ghost g False)"
  shows "fst (getNextGhostDirection rand k ghost pacmanPos pacmanDir blinkyPos g roundNum) =
     chooseLoop (\<lambda>dir. getDistance (getNextTile (g_pos ghost) dir)
                      (getTargetPosition ghost pacmanPos pacmanDir blinkyPos roundNum))
       (getAvailableMoves ghost g False) (getAvailableMoves ghost g False ! 0) None"
proof -
  have "length (getAvailableMoves ghost g False) \<noteq> 0" "length (getAvailableMoves ghost g False) \<noteq> 1"
    using assms(2) by auto
  then show ?thesis
    using assms(1) by (simp add: getNextGhostDirection_def Let_def)
qed

text \<open>
  C6: for a ghost that is not \<open>VULNERABLE\<close> and has two or more available non-reverse
  moves, the available moves are listed in the order UP, LEFT, DOWN, RIGHT, and the
  direction chosen is the first of them with minimal Manhattan distance from its
  resulting tile to the target: every candidate before it in the list is strictly
  farther and every candidate after it is at least as far. In particular the selection
  loop run on the four candidates UP, LEFT, DOWN, RIGHT with distances 3, 3, 5, 7
  returns UP.
\<close>

theorem C6_first_minimal:
  assumes "g_status ghost \<noteq> VULNERABLE"
    and "moves = getAvailableMoves ghost g False"
    and "2 \<le> length moves"
    and "D = (\<lambda>dir. getDistance (getNextTile (g_pos ghost) dir)
                      (getTargetPosition ghost pacmanPos pacmanDir blinkyPos roundNum))"
    and "chosen = fst (getNextGhostDirection rand k ghost pacmanPos pacmanDir blinkyPos g roundNum)"
  shows "subseq moves [UP, LEFT, DOWN, RIGHT]
       \<and> (\<exists>before after. moves = before @ chosen # after
             \<and> (\<forall>d\<in>set before. D chosen < D d) \<and> (\<forall>d\<in>set after. D chosen \<le> D d))
       \<and> (\<forall>distOf. distOf UP = 3 \<and> distOf LEFT = 3 \<and> distOf DOWN = 5 \<and> distOf RIGHT = 7
             \<longrightarrow> chooseLoop distOf [UP, LEFT, DOWN, RIGHT] UP None = UP)"
proof (intro conjI)
  show "subseq moves [UP, LEFT, DOWN, RIGHT]"
    using assms(2) subseq_getAvailableMoves by simp
next
  have ne: "moves \<noteq> []" using assms(3) by auto
  have "chosen = chooseLoop D moves (moves ! 0) None"
    unfolding assms(5) assms(4) assms(2)
    using assms(1) assms(3) [unfolded assms(2)] by (rule getNextGhostDirection_intersection)
  then show "\<exists>before after. moves = before @ chosen # after
             \<and> (\<forall>d\<in>set before. D chosen < D d) \<and> (\<forall>d\<in>set after. D chosen \<le> D d)"
    using chooseLoop_first_min [OF ne, of D "moves ! 0"] by simp
next
  show "\<forall>distOf. distOf UP = 3 \<and> distOf LEFT = 3 \<and> distOf DOWN = 5 \<and> distOf RIGHT = 7
             \<longrightarrow> chooseLoop distOf [UP, LEFT, DOWN, RIGHT] UP None = UP"
    by (simp add: Let_def)
qed


text \<open>
  Witness: in round 1 a ghost at the tile (4, 4) of the initial map heading RIGHT, the
  player at (9, 10). The candidates are UP, DOWN, RIGHT at distances 12, 10, 10: DOWN.
\<close>

theorem C6_first_minimal_witness:
  "fst (getNextGhostDirection (\<lambda>n. 0) 0
         \<lparr>g_id = 1, g_pos = \<lparr>px = 4, py = 4\<rparr>, g_color = [], g_startPos = \<lparr>px = 9, py = 8\<rparr>,
          g_direction = RIGHT, g_status = NORMAL\<rparr>
         \<lparr>px = 9, py = 10\<rparr> RIGHT \<lparr>px = 4, py = 4\<rparr> INITIAL_MAP 1) = DOWN
   \<and> subseq [UP, DOWN, RIGHT] [UP, LEFT, DOWN, RIGHT]
   \<and> (\<exists>before after. [UP, DOWN, RIGHT] = before @ DOWN # after
         \<and> (\<forall>d\<in>set before.
               getDistance (getNextTile \<lparr>px = 4, py = 4\<rparr> DOWN) \<lparr>px = 9, py = 10\<rparr>
                 < getDistance (getNextTile \<lparr>px = 4, py = 4\<rparr> d) \<lparr>px = 9, py = 10\<rparr>)
         \<and> (\<forall>d\<in>set after.
               getDistance (getNextTile \<lparr>px = 4, py = 4\<rparr> DOWN) \<lparr>px = 9, py = 10\<rparr>
                 \<le> getDistance (getNextTile \<lparr>px = 4, py = 4\<rparr> d) \<lparr>px = 9, py = 10\<rparr>))"
proof -
  let ?gh = "\<lparr>g_id = 1, g_pos = \<lparr>px = 4, py = 4\<rparr>, g_color = [], g_startPos = \<lparr>px = 9, py = 8\<rparr>,
          g_direction = RIGHT, g_status = NORMAL\<rparr>"
  let ?pp = "\<lparr>px = 9, py = 10\<rparr>"
  have moves: "getAvailableMoves ?gh INITIAL_MAP False = [UP, DOWN, RIGHT]"
    by (simp add: getAvailableMoves_def checkOrder_def moveAdmitted_def MAP_WIDTH_eq
          MAP_HEIGHT_eq tileAt_def INITIAL_MAP_def tileOfCode_def)
  have tgt: "getTargetPosition ?gh ?pp RIGHT \<lparr>px = 4, py = 4\<rparr> 1 = ?pp"
    by (simp add: getTargetPosition_def)
  have chosen: "fst (getNextGhostDirection (\<lambda>n. 0) 0 ?gh ?pp RIGHT \<lparr>px = 4, py = 4\<rparr> INITIAL_MAP 1) = DOWN"
    by (simp add: getNextGhostDirection_def moves tgt Let_def getDistance_def getNextTile_def)
  have "subseq (getAvailableMoves ?gh INITIAL_MAP False) [UP, LEFT, DOWN, RIGHT]
       \<and> (\<exists>before after. getAvailableMoves ?gh INITIAL_MAP False =
               before @ fst (getNextGhostDirection (\<lambda>n. 0) 0 ?gh ?pp RIGHT \<lparr>px = 4, py = 4\<rparr> INITIAL_MAP 1) # after
             \<and> (\<forall>d\<in>set before.
                   getDistance (getNextTile (g_pos ?gh)
                       (fst (getNextGhostDirection (\<lambda>n. 0) 0 ?gh ?pp RIGHT \<lparr>px = 4, py = 4\<rparr> INITIAL_MAP 1)))
                     (getTargetPosition ?gh ?pp RIGHT \<lparr>px = 4, py = 4\<rparr> 1)
                   < getDistance (getNextTile (g_pos ?gh) d)
                       (getTargetPosition ?gh ?pp RIGHT \<lparr>px = 4, py = 4\<rparr> 1))
             \<and> (\<forall>d\<in>set after.
                   getDistance (getNextTile (g_pos ?gh)
                       (fst (getNextGhostDirection (\<lambda>n. 0) 0 ?gh ?pp RIGHT \<lparr>px = 4, py = 4\<rparr> INITIAL_MAP 1)))
                     (getTargetPosition ?gh ?pp RIGHT \<lparr>px = 4, py = 4\<rparr> 1)
                   \<le> getDistance (getNextTile (g_pos ?gh) d)
                       (getTargetPosition ?gh ?pp RIGHT \<lparr>px = 4, py = 4\<rparr> 1)))
       \<and> (\<forall>distOf. distOf UP = 3 \<and> distOf LEFT = 3 \<and> distOf DOWN = 5 \<and> distOf RIGHT = 7
             \<longrightarrow> chooseLoop distOf [UP, LEFT, DOWN, RIGHT] UP None = UP)"
    by (rule C6_first_minimal [OF _ refl _ refl refl]) (simp_all add: moves)
  then show ?thesis
    unfolding moves chosen tgt by simp
qed

section \<open>The decision is a cardinal direction (C10)\<close>

lemma chooseLoop_mem: "chooseLoop D xs b m \<in> set (b # xs)"
  by (induction xs arbitrary: b m) (auto simp: Let_def)

lemma chooseLoop_mem_moves: "b \<in> set xs \<Longrightarrow> chooseLoop D xs b m \<in> set xs"
  using chooseLoop_mem [of D xs b m] by auto

lemma random_index_less:
  assumes "0 \<le> r" and "r < 1" and "0 < n"
  shows "nat \<lfloor>r * real n\<rfloor> < n"
proof -
  have "r * real n < real n" using assms by simp
  then have "\<lfloor>r * real n\<rfloor> < int n" by (simp add: floor_less_iff)
  then show ?thesis using assms(3) by linarith
qed

text \<open>
  C10: for a ghost whose direction is one of the four cardinal directions, and a value
  of \<open>Math.random()\<close> in the interval from 0 (included) to 1 (excluded), the decision
  function never returns \<open>NONE\<close>; it returns the reverse of the current direction when
  there is no available non-reverse move, and a member of the available non-reverse
  moves otherwise; in \<open>VULNERABLE\<close> mode as in normal mode.
\<close>

theorem C10_cardinal_decision:
  assumes "g_direction ghost \<noteq> NONE"
    and "0 \<le> rand k" and "rand k < 1"
  shows "fst (getNextGhostDirection rand k ghost pacmanPos pacmanDir blinkyPos g roundNum) \<noteq> NONE
       \<and> (if getAvailableMoves ghost g False = []
          then fst (getNextGhostDirection rand k ghost pacmanPos pacmanDir blinkyPos g roundNum)
                 = getOppositeDirection (g_direction ghost)
          else fst (getNextGhostDirection rand k ghost pacmanPos pacmanDir blinkyPos g roundNum)
                 \<in> set (getAvailableMoves ghost g False))"
proof -
  let ?moves = "getAvailableMoves ghost g False"
  let ?d = "fst (getNextGhostDirection rand k ghost pacmanPos pacmanDir blinkyPos g roundNum)"
  have opp: "getOppositeDirection (g_direction ghost) \<noteq> NONE"
    using assms(1) by (cases "g_direction ghost") auto
  have noNone: "NONE \<notin> set ?moves"
    using set_getAvailableMoves [of ghost g False] by auto
  show ?thesis
  proof (cases "?moves = []")
    case True
    then have "?d = getOppositeDirection (g_direction ghost)"
      by (simp add: getNextGhostDirection_def Let_def)
    then show ?thesis using True opp by simp
  next
    case False
    then have pos: "0 < length ?moves" by simp
    have "?d \<in> set ?moves"
    proof (cases "g_status ghost = VULNERABLE")
      case True
      have "nat \<lfloor>rand k * real (length ?moves)\<rfloor> < length ?moves"
        using assms(2,3) pos by (rule random_index_less)
      then have "?moves ! nat \<lfloor>rand k * real (length ?moves)\<rfloor> \<in> set ?moves"
        by (rule nth_mem)
      then show ?thesis
        using True pos by (simp add: getNextGhostDirection_def Let_def)
    next
      case nv: False
      show ?thesis
      proof (cases "length ?moves = 1")
        case True
        then have "?d = ?moves ! 0"
          using nv \<open>?moves \<noteq> []\<close> by (simp add: getNextGhostDirection_def Let_def)
        then show ?thesis using pos by simp
      next
        case False
        then have "2 \<le> length ?moves" using pos by linarith
        then have "?d = chooseLoop (\<lambda>dir. getDistance (getNextTile (g_pos ghost) dir)
                      (getTargetPosition ghost pacmanPos pacmanDir blinkyPos roundNum))
              ?moves (?moves ! 0) None"
          using nv by (simp add: getNextGhostDirection_intersection)
        moreover have "?moves ! 0 \<in> set ?moves" using pos by simp
        ultimately show ?thesis
          by (simp add: chooseLoop_mem_moves)
      qed
    qed
    then show ?thesis using False noNone by auto
  qed
qed

text \<open>
  Witness: a \<open>VULNERABLE\<close> ghost at the tile (4, 4) heading RIGHT, with the random
  value 1/2.
\<close>

theorem C10_cardinal_decision_witness:
  "fst (getNextGhostDirection (\<lambda>n. 1 / 2) 0
         \<lparr>g_id = 1, g_pos = \<lparr>px = 4, py = 4\<rparr>, g_color = [], g_startPos = \<lparr>px = 9, py = 8\<rparr>,
          g_direction = RIGHT, g_status = VULNERABLE\<rparr>
         \<lparr>px = 9, py = 10\<rparr> RIGHT \<lparr>px = 4, py = 4\<rparr> INITIAL_MAP 1) \<noteq> NONE
   \<and> fst (getNextGhostDirection (\<lambda>n. 1 / 2) 0
         \<lparr>g_id = 1, g_pos = \<lparr>px = 4, py = 4\<rparr>, g_color = [], g_startPos = \<lparr>px = 9, py = 8\<rparr>,
          g_direction = RIGHT, g_status = VULNERABLE\<rparr>
         \<lparr>px = 9, py = 10\<rparr> RIGHT \<lparr>px = 4, py = 4\<rparr> INITIAL_MAP 1) \<in> set [UP, DOWN, RIGHT]"
proof -
  let ?gh = "\<lparr>g_id = 1, g_pos = \<lparr>px = 4, py = 4\<rparr>, g_color = [], g_startPos = \<lparr>px = 9, py = 8\<rparr>,
          g_direction = RIGHT, g_status = VULNERABLE\<rparr>"
  have moves: "getAvailableMoves ?gh INITIAL_MAP False = [UP, DOWN, RIGHT]"
    by (simp add: getAvailableMoves_def checkOrder_def moveAdmitted_def MAP_WIDTH_eq
          MAP_HEIGHT_eq tileAt_def INITIAL_MAP_def tileOfCode_def)
  have "g_direction ?gh \<noteq> NONE" "(0::real) \<le> (\<lambda>n::nat. 1 / 2) 0" "(\<lambda>n::nat. 1 / 2) 0 < (1::real)"
    by simp_all
  from C10_cardinal_decision [OF this, where pacmanPos = "\<lparr>px = 9, py = 10\<rparr>"
      and pacmanDir = RIGHT and blinkyPos = "\<lparr>px = 4, py = 4\<rparr>" and g = INITIAL_MAP and roundNum = 1]
  show ?thesis unfolding moves by simp
qed

section \<open>Pause phases (C8)\<close>

text \<open>
  C8: in \<open>ROUND_STARTING\<close> or \<open>RESPAWNING\<close> a tick returns normally; it subtracts the
  elapsed time from the pause countdown and sets the status to \<open>PLAYING\<close> when the
  countdown is then zero or below; the grid, the score, the lives, the pellet count, the
  player and every ghost are unchanged. Besides the countdown and the status only the
  frame bookkeeping (\<open>lastFrameTime\<close>, \<open>frameCount\<close>) changes.
\<close>

theorem C8_pause_tick:
  assumes "status s = ROUND_STARTING \<or> status s = RESPAWNING"
  shows "\<exists>s'. update rand teamName time s = Some s'
           \<and> pauseTimer s' = pauseTimer s - (time - lastFrameTime s)
           \<and> status s' = (if pauseTimer s' \<le> 0 then PLAYING else status s)
           \<and> grid s' = grid s \<and> score s' = score s \<and> lives s' = lives s
           \<and> pelletsRemaining s' = pelletsRemaining s
           \<and> pacman s' = pacman s \<and> ghosts s' = ghosts s
           \<and> s' = s\<lparr>lastFrameTime := time, frameCount := frameCount s + 1,
                     pauseTimer := pauseTimer s - (time - lastFrameTime s),
                     status := (if pauseTimer s - (time - lastFrameTime s) \<le> 0
                                then PLAYING else status s)\<rparr>"
  using assms by (auto simp: update_def pauseTick_def Let_def)


text \<open>Witness: a countdown of 10 ms and a tick 16 ms after the last frame.\<close>

theorem C8_pause_tick_witness:
  "update (\<lambda>n. 0) ''TEAM'' 16 (initialGameState\<lparr>pauseTimer := 10\<rparr>) =
     Some (initialGameState\<lparr>lastFrameTime := 16, frameCount := 1, pauseTimer := - 6,
                            status := PLAYING\<rparr>)"
proof -
  have "status (initialGameState\<lparr>pauseTimer := 10\<rparr>) = ROUND_STARTING
        \<or> status (initialGameState\<lparr>pauseTimer := 10\<rparr>) = RESPAWNING"
    by (simp add: initialGameState_def)
  from C8_pause_tick [OF this, where rand = "\<lambda>n. 0" and teamName = "''TEAM''" and time = 16]
  show ?thesis by (auto simp: initialGameState_def)
qed

section \<open>Grid updates and the respawn loop\<close>

lemma tileAt_SomeD:
  "tileAt g x y = Some t \<Longrightarrow> 0 \<le> x \<and> 0 \<le> y \<and> nat y < length g \<and> nat x < length (g ! nat y) \<and> g ! nat y ! nat x = t"
  by (auto simp: tileAt_def split: if_splits)

lemma tileAt_setTile:
  assumes "tileAt g x y = Some t0"
  shows "tileAt (setTile g x y t) x' y' = (if x' = x \<and> y' = y then Some t else tileAt g x' y')"
proof -
  from tileAt_SomeD [OF assms]
  have r: "0 \<le> x" "0 \<le> y" "nat y < length g" "nat x < length (g ! nat y)" by auto
  have ri: "y < int (length g)" "x < int (length (g ! nat y))" using r by linarith+
  let ?row = "(g ! nat y)[nat x := t]"
  have len: "length (g[nat y := ?row]) = length g" by simp
  show ?thesis
  proof (cases "0 \<le> y' \<and> y' < int (length g)")
    case False
    then have "y' \<noteq> y" using r ri by auto
    moreover have "tileAt (setTile g x y t) x' y' = None" "tileAt g x' y' = None"
      using False by (auto simp: tileAt_def setTile_def)
    ultimately show ?thesis by simp
  next
    case inr: True
    show ?thesis
    proof (cases "y' = y")
      case True
      have row: "g[nat y := ?row] ! nat y = ?row" using r(3) by simp
      have "tileAt (setTile g x y t) x' y =
              (if 0 \<le> x' \<and> x' < int (length (g ! nat y)) then Some (?row ! nat x') else None)"
        using r ri by (simp add: tileAt_def setTile_def)
      also have "\<dots> = (if x' = x then Some t else tileAt g x' y)"
      proof (cases "0 \<le> x' \<and> x' < int (length (g ! nat y))")
        case False
        then have "x' \<noteq> x" using r ri by auto
        then show ?thesis using False r ri by (auto simp: tileAt_def)
      next
        case True
        have "nat x = nat x' \<longleftrightarrow> x' = x" using True r(1) by auto
        then show ?thesis using True r ri by (simp add: tileAt_def nth_list_update)
      qed
      finally show ?thesis using True by simp
    next
      case False
      then have ne: "nat y' \<noteq> nat y" using inr r(2) by auto
      then have "g[nat y := ?row] ! nat y' = g ! nat y'" by simp
      then show ?thesis using False by (simp add: tileAt_def setTile_def)
    qed
  qed
qed

lemma length_filter_update:
  "i < length xs \<Longrightarrow>
   length (filter P (xs[i := v])) + (if P (xs ! i) then 1 else 0)
     = length (filter P xs) + (if P v then 1 else 0)"
proof (induction xs arbitrary: i)
  case Nil
  then show ?case by simp
next
  case (Cons a xs)
  then show ?case by (cases i) auto
qed

lemma sum_list_map_update:
  "i < length xs \<Longrightarrow>
   sum_list (map f (xs[i := v])) + f (xs ! i) = sum_list (map f xs) + (f v :: nat)"
proof (induction xs arbitrary: i)
  case Nil
  then show ?case by simp
next
  case (Cons a xs)
  then show ?case by (cases i) auto
qed

lemma countPellets_setTile:
  assumes "tileAt g x y = Some t0"
  shows "countPellets (setTile g x y t) + (if isPelletTile t0 then 1 else 0)
           = countPellets g + (if isPelletTile t then 1 else 0)"
proof -
  from tileAt_SomeD [OF assms]
  have r: "nat y < length g" "nat x < length (g ! nat y)" "g ! nat y ! nat x = t0" by auto
  let ?f = "\<lambda>row. length (filter isPelletTile row)"
  have a: "sum_list (map ?f (g[nat y := (g ! nat y)[nat x := t]])) + ?f (g ! nat y)
         = sum_list (map ?f g) + ?f ((g ! nat y)[nat x := t])"
    using r(1) by (rule sum_list_map_update)
  have b: "?f ((g ! nat y)[nat x := t]) + (if isPelletTile t0 then 1 else 0)
         = ?f (g ! nat y) + (if isPelletTile t then 1 else 0)"
    using length_filter_update [OF r(2), of isPelletTile t] r(3) by simp
  show ?thesis
    unfolding countPellets_def setTile_def using a b by linarith
qed

lemma respawnLoop_count:
  "respawnLoop locs g c = (g', c') \<Longrightarrow>
     c \<le> c' \<and> int (countPellets g') = int (countPellets g) + (c' - c)"
proof (induction locs arbitrary: g c)
  case Nil
  then show ?case by simp
next
  case (Cons pos rest)
  show ?case
  proof (cases "tileAt g (fst pos) (snd pos) = Some EMPTY")
    case True
    then have "respawnLoop rest (setTile g (fst pos) (snd pos) POWER_PELLET) (c + 1) = (g', c')"
      using Cons.prems by simp
    from Cons.IH [OF this] countPellets_setTile [OF True, of POWER_PELLET]
    show ?thesis by (simp add: isPelletTile_def)
  next
    case False
    then have "respawnLoop rest g c = (g', c')" using Cons.prems by simp
    from Cons.IH [OF this] show ?thesis .
  qed
qed

lemma respawnLoop_tiles:
  "respawnLoop locs g c = (g', c') \<Longrightarrow>
     (\<forall>x y. tileAt g' x y =
        (if (x, y) \<in> set locs \<and> tileAt g x y = Some EMPTY then Some POWER_PELLET
         else tileAt g x y))
     \<and> c' = c + int (card {p \<in> set locs. tileAt g (fst p) (snd p) = Some EMPTY})"
proof (induction locs arbitrary: g c)
  case Nil
  then show ?case by simp
next
  case (Cons pos rest)
  obtain x0 y0 where pos: "pos = (x0, y0)" by (cases pos)
  show ?case
  proof (cases "tileAt g x0 y0 = Some EMPTY")
    case True
    let ?g1 = "setTile g x0 y0 POWER_PELLET"
    have rec: "respawnLoop rest ?g1 (c + 1) = (g', c')"
      using Cons.prems True pos by simp
    have t1: "\<And>x y. tileAt ?g1 x y = (if x = x0 \<and> y = y0 then Some POWER_PELLET else tileAt g x y)"
      using tileAt_setTile [OF True] by simp
    from Cons.IH [OF rec]
    have ih1: "\<And>x y. tileAt g' x y =
        (if (x, y) \<in> set rest \<and> tileAt ?g1 x y = Some EMPTY then Some POWER_PELLET
         else tileAt ?g1 x y)"
      and ih2: "c' = c + 1 + int (card {p \<in> set rest. tileAt ?g1 (fst p) (snd p) = Some EMPTY})"
      by auto
    have tiles: "\<forall>x y. tileAt g' x y =
        (if (x, y) \<in> set (pos # rest) \<and> tileAt g x y = Some EMPTY then Some POWER_PELLET
         else tileAt g x y)"
      using True by (auto simp: ih1 t1 pos)
    have seteq: "{p \<in> set (pos # rest). tileAt g (fst p) (snd p) = Some EMPTY}
        = insert pos {p \<in> set rest. tileAt ?g1 (fst p) (snd p) = Some EMPTY}"
      using True by (auto simp: t1 pos)
    have notin: "pos \<notin> {p \<in> set rest. tileAt ?g1 (fst p) (snd p) = Some EMPTY}"
      by (simp add: t1 pos)
    have "card {p \<in> set (pos # rest). tileAt g (fst p) (snd p) = Some EMPTY}
        = Suc (card {p \<in> set rest. tileAt ?g1 (fst p) (snd p) = Some EMPTY})"
      unfolding seteq using notin by (simp add: card_insert_disjoint)
    then show ?thesis using tiles ih2 by simp
  next
    case False
    then have rec: "respawnLoop rest g c = (g', c')" using Cons.prems pos by simp
    have seteq: "{p \<in> set (pos # rest). tileAt g (fst p) (snd p) = Some EMPTY}
        = {p \<in> set rest. tileAt g (fst p) (snd p) = Some EMPTY}"
      using False by (auto simp: pos)
    from Cons.IH [OF rec] show ?thesis
      unfolding seteq using False by (auto simp: pos)
  qed
qed


lemma ghostsAlive_makeVulnerable:
  "list_ex (\<lambda>g. g_status g \<noteq> EATEN) (map makeVulnerable gs) \<longleftrightarrow> (\<exists>g\<in>set gs. g_status g \<noteq> EATEN)"
  by (induction gs) (auto simp: makeVulnerable_def)

lemma respawnLogic_ghosts [simp]:
  "ghosts (respawnLogic s) = ghosts s"
  "vulnerableUntil (respawnLogic s) = vulnerableUntil s"
  "ghostsEatenStreak (respawnLogic s) = ghostsEatenStreak s"
  by (simp_all add: respawnLogic_def Let_def)

lemma respawnLogic_no_respawn:
  "currentPowerPellets s \<noteq> 0 \<or> \<not> ghostsAlive s \<Longrightarrow> respawnLogic s = s"
  by (auto simp: respawnLogic_def)

lemma respawnLogic_respawn:
  assumes "currentPowerPellets s = 0" and "ghostsAlive s"
    and "n = int (card {p \<in> set (powerPelletLocations s). tileAt (grid s) (fst p) (snd p) = Some EMPTY})"
  shows "(\<forall>x y. tileAt (grid (respawnLogic s)) x y =
            (if (x, y) \<in> set (powerPelletLocations s) \<and> tileAt (grid s) x y = Some EMPTY
             then Some POWER_PELLET else tileAt (grid s) x y))
       \<and> currentPowerPellets (respawnLogic s) = n
       \<and> pelletsRemaining (respawnLogic s) = pelletsRemaining s + n"
proof -
  obtain g' c' where r: "respawnLoop (powerPelletLocations s) (grid s) 0 = (g', c')"
    by (cases "respawnLoop (powerPelletLocations s) (grid s) 0")
  from respawnLoop_tiles [OF r]
  have tiles: "\<forall>x y. tileAt g' x y =
            (if (x, y) \<in> set (powerPelletLocations s) \<and> tileAt (grid s) x y = Some EMPTY
             then Some POWER_PELLET else tileAt (grid s) x y)"
    and c': "c' = n" using assms(3) by auto
  have n0: "0 \<le> n" using assms(3) by simp
  show ?thesis
    using assms(1,2) tiles c' n0 by (auto simp: respawnLogic_def r Let_def)
qed

section \<open>Power-pellet respawn (C9)\<close>

text \<open>
  C9: let \<open>eaten\<close> say that the player's tile is inside the map and holds a power
  pellet, \<open>g0\<close> be the grid with that tile emptied, and \<open>n\<close> the number of recorded
  power-pellet locations whose tile is \<open>EMPTY\<close> in \<open>g0\<close>. Then the pellet phase of a
  tick
  \<^item> creates no power pellet and leaves the live power-pellet count alone when no
    power pellet is consumed;
  \<^item> when one is consumed and either the live count does not thereby reach zero or
    every ghost is \<open>EATEN\<close>, leaves the grid at \<open>g0\<close> and only decrements the two
    counters: no respawn;
  \<^item> when one is consumed, the live count thereby reaches zero and some ghost is not
    \<open>EATEN\<close>, turns into \<open>POWER_PELLET\<close> exactly the recorded locations that are
    \<open>EMPTY\<close> in \<open>g0\<close>, leaves every other tile as in \<open>g0\<close>, and raises the live
    power-pellet count (from zero) and the pellets-remaining counter by \<open>n\<close>.
\<close>

theorem C9_respawn:
  assumes "pX = round (px (p_pos (pacman s)))" and "pY = round (py (p_pos (pacman s)))"
    and "eaten = (pY \<ge> 0 \<and> pY < MAP_HEIGHT \<and> pX \<ge> 0 \<and> pX < MAP_WIDTH
                   \<and> tileAt (grid s) pX pY = Some POWER_PELLET)"
    and "g0 = setTile (grid s) pX pY EMPTY"
    and "n = int (card {p \<in> set (powerPelletLocations s). tileAt g0 (fst p) (snd p) = Some EMPTY})"
    and "s' = eatPellets time s"
  shows "(\<not> eaten \<longrightarrow>
            (\<forall>x y. tileAt (grid s') x y = Some POWER_PELLET \<longrightarrow> tileAt (grid s) x y = Some POWER_PELLET)
            \<and> currentPowerPellets s' = currentPowerPellets s)
       \<and> (eaten \<and> (currentPowerPellets s \<noteq> 1 \<or> (\<forall>g\<in>set (ghosts s). g_status g = EATEN)) \<longrightarrow>
            grid s' = g0 \<and> currentPowerPellets s' = currentPowerPellets s - 1
            \<and> pelletsRemaining s' = pelletsRemaining s - 1)
       \<and> (eaten \<and> currentPowerPellets s = 1 \<and> (\<exists>g\<in>set (ghosts s). g_status g \<noteq> EATEN) \<longrightarrow>
            (\<forall>x y. tileAt (grid s') x y =
               (if (x, y) \<in> set (powerPelletLocations s) \<and> tileAt g0 x y = Some EMPTY
                then Some POWER_PELLET else tileAt g0 x y))
            \<and> currentPowerPellets s' = n
            \<and> pelletsRemaining s' = pelletsRemaining s - 1 + n)"
proof (intro conjI impI)
  assume ne: "\<not> eaten"
  show "\<forall>x y. tileAt (grid s') x y = Some POWER_PELLET \<longrightarrow> tileAt (grid s) x y = Some POWER_PELLET"
  proof (cases "pY \<ge> 0 \<and> pY < MAP_HEIGHT \<and> pX \<ge> 0 \<and> pX < MAP_WIDTH \<and> tileAt (grid s) pX pY = Some PELLET")
    case True
    then have "grid s' = setTile (grid s) pX pY EMPTY"
      using assms(1,2,6) by (simp add: eatPellets_def Let_def)
    then show ?thesis using tileAt_setTile [of "grid s" pX pY PELLET EMPTY] True by simp
  next
    case False
    then have "s' = s" using ne assms(1,2,3,6) by (auto simp: eatPellets_def Let_def)
    then show ?thesis by simp
  qed
  show "currentPowerPellets s' = currentPowerPellets s"
    using ne assms(1,2,3,6) by (auto simp: eatPellets_def Let_def)
next
  let ?s1 = "s\<lparr>score := jsAdd (score s) (Num 50), grid := setTile (grid s) pX pY EMPTY,
               pelletsRemaining := pelletsRemaining s - 1,
               currentPowerPellets := currentPowerPellets s - 1,
               vulnerableUntil := time + VULNERABLE_DURATION_MS,
               ghostsEatenStreak := 0,
               ghosts := map makeVulnerable (ghosts s)\<rparr>"
  assume a: "eaten \<and> (currentPowerPellets s \<noteq> 1 \<or> (\<forall>g\<in>set (ghosts s). g_status g = EATEN))"
  then have s': "s' = respawnLogic ?s1"
    using assms(1,2,3,6) by (simp add: eatPellets_def Let_def)
  have "currentPowerPellets ?s1 \<noteq> 0 \<or> \<not> ghostsAlive ?s1"
    using a by (auto simp: ghostsAlive_def ghostsAlive_makeVulnerable)
  then have "respawnLogic ?s1 = ?s1" by (rule respawnLogic_no_respawn)
  then have eq: "s' = ?s1" using s' by simp
  show "grid s' = g0" using eq assms(4) by simp
  show "currentPowerPellets s' = currentPowerPellets s - 1" using eq by simp
  show "pelletsRemaining s' = pelletsRemaining s - 1" using eq by simp
next
  let ?s1 = "s\<lparr>score := jsAdd (score s) (Num 50), grid := setTile (grid s) pX pY EMPTY,
               pelletsRemaining := pelletsRemaining s - 1,
               currentPowerPellets := currentPowerPellets s - 1,
               vulnerableUntil := time + VULNERABLE_DURATION_MS,
               ghostsEatenStreak := 0,
               ghosts := map makeVulnerable (ghosts s)\<rparr>"
  assume a: "eaten \<and> currentPowerPellets s = 1 \<and> (\<exists>g\<in>set (ghosts s). g_status g \<noteq> EATEN)"
  then have s': "s' = respawnLogic ?s1"
    using assms(1,2,3,6) by (simp add: eatPellets_def Let_def)
  have c0: "currentPowerPellets ?s1 = 0" using a by simp
  have alive: "ghostsAlive ?s1"
    using a by (simp add: ghostsAlive_def ghostsAlive_makeVulnerable)
  have n: "n = int (card {p \<in> set (powerPelletLocations ?s1). tileAt (grid ?s1) (fst p) (snd p) = Some EMPTY})"
    using assms(4,5) by simp
  from respawnLogic_respawn [OF c0 alive n]
  have r: "\<forall>x y. tileAt (grid (respawnLogic ?s1)) x y =
            (if (x, y) \<in> set (powerPelletLocations ?s1) \<and> tileAt (grid ?s1) x y = Some EMPTY
             then Some POWER_PELLET else tileAt (grid ?s1) x y)"
    "currentPowerPellets (respawnLogic ?s1) = n"
    "pelletsRemaining (respawnLogic ?s1) = pelletsRemaining ?s1 + n"
    by blast+
  show "\<forall>x y. tileAt (grid s') x y =
               (if (x, y) \<in> set (powerPelletLocations s) \<and> tileAt g0 x y = Some EMPTY
                then Some POWER_PELLET else tileAt g0 x y)"
    using r(1) s' assms(4) by simp
  show "currentPowerPellets s' = n" using r(2) s' by simp
  show "pelletsRemaining s' = pelletsRemaining s - 1 + n" using r(3) s' by simp
qed


text \<open>
  Witness: the player on the last power pellet, at (1, 1), with one ghost alive: all
  four power pellets come back and the pellet count goes from 124 to 127.
\<close>

theorem C9_respawn_witness:
  "currentPowerPellets
     (eatPellets 1000
        ((exampleState 1 1 LEFT [exampleGhost 1 9 8 UP NORMAL])
           \<lparr>grid := lastPowerPelletGrid, currentPowerPellets := 1, pelletsRemaining := 124\<rparr>)) = 4
   \<and> pelletsRemaining
     (eatPellets 1000
        ((exampleState 1 1 LEFT [exampleGhost 1 9 8 UP NORMAL])
           \<lparr>grid := lastPowerPelletGrid, currentPowerPellets := 1, pelletsRemaining := 124\<rparr>)) = 127
   \<and> tileAt (grid
     (eatPellets 1000
        ((exampleState 1 1 LEFT [exampleGhost 1 9 8 UP NORMAL])
           \<lparr>grid := lastPowerPelletGrid, currentPowerPellets := 1, pelletsRemaining := 124\<rparr>)))
       17 14 = Some POWER_PELLET"
proof -
  let ?S = "(exampleState 1 1 LEFT [exampleGhost 1 9 8 UP NORMAL])
           \<lparr>grid := lastPowerPelletGrid, currentPowerPellets := 1, pelletsRemaining := 124\<rparr>"
  let ?g0 = "setTile lastPowerPelletGrid 1 1 EMPTY"
  have pos: "round (px (p_pos (pacman ?S))) = 1" "round (py (p_pos (pacman ?S))) = 1"
    by (simp_all add: exampleState_def)
  have gr: "grid ?S = lastPowerPelletGrid" "currentPowerPellets ?S = 1"
    "pelletsRemaining ?S = 124"
    "powerPelletLocations ?S = [(1, 1), (17, 1), (1, 14), (17, 14)]"
    "ghosts ?S = [exampleGhost 1 9 8 UP NORMAL]"
    by (simp_all add: exampleState_def)
  have t: "tileAt lastPowerPelletGrid 1 1 = Some POWER_PELLET"
    by (simp add: lastPowerPelletGrid_def setTile_def INITIAL_MAP_def tileAt_def tileOfCode_def)
  have e: "tileAt ?g0 1 1 = Some EMPTY" "tileAt ?g0 17 1 = Some EMPTY"
    "tileAt ?g0 1 14 = Some EMPTY" "tileAt ?g0 17 14 = Some EMPTY"
    by (simp_all add: lastPowerPelletGrid_def setTile_def INITIAL_MAP_def tileAt_def tileOfCode_def)
  have "{p \<in> set [(1, 1), (17, 1), (1, 14), (17, 14)]. tileAt ?g0 (fst p) (snd p) = Some EMPTY}
          = {(1, 1), (17, 1), (1, 14), (17, 14)}"
    using e by auto
  then have n: "int (card {p \<in> set (powerPelletLocations ?S).
                  tileAt (setTile (grid ?S) (round (px (p_pos (pacman ?S))))
                            (round (py (p_pos (pacman ?S)))) EMPTY) (fst p) (snd p) = Some EMPTY}) = 4"
    unfolding gr pos by simp
  have prem: "(round (py (p_pos (pacman ?S))) \<ge> 0 \<and> round (py (p_pos (pacman ?S))) < MAP_HEIGHT
        \<and> round (px (p_pos (pacman ?S))) \<ge> 0 \<and> round (px (p_pos (pacman ?S))) < MAP_WIDTH
        \<and> tileAt (grid ?S) (round (px (p_pos (pacman ?S)))) (round (py (p_pos (pacman ?S))))
            = Some POWER_PELLET)
      \<and> currentPowerPellets ?S = 1 \<and> (\<exists>g\<in>set (ghosts ?S). g_status g \<noteq> EATEN)"
    unfolding gr pos by (simp add: t MAP_WIDTH_eq MAP_HEIGHT_eq exampleGhost_def)
  from C9_respawn [OF refl refl refl refl refl refl, of ?S 1000] prem
  have "(\<forall>x y. tileAt (grid (eatPellets 1000 ?S)) x y =
               (if (x, y) \<in> set (powerPelletLocations ?S)
                   \<and> tileAt (setTile (grid ?S) (round (px (p_pos (pacman ?S))))
                            (round (py (p_pos (pacman ?S)))) EMPTY) x y = Some EMPTY
                then Some POWER_PELLET
                else tileAt (setTile (grid ?S) (round (px (p_pos (pacman ?S))))
                            (round (py (p_pos (pacman ?S)))) EMPTY) x y))
            \<and> currentPowerPellets (eatPellets 1000 ?S) =
                int (card {p \<in> set (powerPelletLocations ?S).
                  tileAt (setTile (grid ?S) (round (px (p_pos (pacman ?S))))
                            (round (py (p_pos (pacman ?S)))) EMPTY) (fst p) (snd p) = Some EMPTY})
            \<and> pelletsRemaining (eatPellets 1000 ?S) = pelletsRemaining ?S - 1 +
                int (card {p \<in> set (powerPelletLocations ?S).
                  tileAt (setTile (grid ?S) (round (px (p_pos (pacman ?S))))
                            (round (py (p_pos (pacman ?S)))) EMPTY) (fst p) (snd p) = Some EMPTY})"
    by blast
  then have "(\<forall>x y. tileAt (grid (eatPellets 1000 ?S)) x y =
               (if (x, y) \<in> set [(1, 1), (17, 1), (1, 14), (17, 14)] \<and> tileAt ?g0 x y = Some EMPTY
                then Some POWER_PELLET else tileAt ?g0 x y))
            \<and> currentPowerPellets (eatPellets 1000 ?S) = 4
            \<and> pelletsRemaining (eatPellets 1000 ?S) = 124 - 1 + 4"
    unfolding n unfolding gr pos .
  then show ?thesis using e(4) by simp
qed

section \<open>The collision distance\<close>

lemma collision_dist_iff: "sqrt v < COLLISION_DIST \<longleftrightarrow> v < 1 / 4"
proof -
  have h: "sqrt (1 / 4) = (1 / 2 :: real)"
    by (rule real_sqrt_unique) (simp_all add: power2_eq_square)
  have "sqrt v < sqrt (1 / 4) \<longleftrightarrow> v < 1 / 4"
    by (rule real_sqrt_less_iff)
  then have "sqrt v < 1 / 2 \<longleftrightarrow> v < 1 / 4"
    unfolding h .
  moreover have "COLLISION_DIST = 1 / 2"
    by (simp add: COLLISION_DIST_def)
  ultimately show ?thesis by (simp only:)
qed

section \<open>Evaluating a tick\<close>

text \<open>
  The collision test without the square root, as the equation with which a tick is
  evaluated on a concrete state.
\<close>

lemma collideGhost_code [code]:
  "collideGhost rand teamName time i ds =
     (let det = fst ds;
          s = snd ds;
          arr = (case det of None \<Rightarrow> ghosts s | Some a \<Rightarrow> a);
          ghost = arr ! i
      in if g_status ghost = EATEN then Some ds
         else
           (let dx = px (g_pos ghost) - px (p_pos (pacman s));
                dy = py (g_pos ghost) - py (p_pos (pacman s))
            in if dx * dx + dy * dy < 1 / 4 then
                 (if g_status ghost = VULNERABLE then
                    (let arr' = arr[i := ghost\<lparr>g_status := EATEN\<rparr>];
                         streak = jsInc (ghostsEatenStreak s);
                         multiplier = jsPow2 (streak - 1);
                         points = jsMul200 multiplier;
                         s1 = s\<lparr>ghostsEatenStreak := streak,
                                score := jsAdd (score s) points,
                                popups := popups s @
                                  [\<lparr>pop_id = rand (randomCalls s), pop_x = px (g_pos ghost),
                                    pop_y = py (g_pos ghost), pop_score = points,
                                    pop_timestamp = time\<rparr>],
                                randomCalls := randomCalls s + 1\<rparr>
                     in Some (case det of
                                None \<Rightarrow> (None, s1\<lparr>ghosts := arr'\<rparr>)
                              | Some a \<Rightarrow> (Some arr', s1)))
                  else
                    (case handleDeath teamName s of
                       None \<Rightarrow> None
                     | Some s' \<Rightarrow>
                         Some (if det = None \<and> ghostsArray s' \<noteq> ghostsArray s
                               then (Some arr, s') else (det, s'))))
               else Some ds))"
  by (simp add: collideGhost_def collision_dist_iff Let_def)

section \<open>The pellet counter (C1)\<close>

lemma scanRow_count:
  "fst (scanRow y x row acc) = fst acc + int (length (filter isPelletTile row))"
  by (induction row arbitrary: x acc) (auto simp: isPelletTile_def)

lemma scanGrid_count:
  "fst (scanGrid y g acc) = fst acc + int (countPellets g)"
  by (induction g arbitrary: y acc) (auto simp: countPellets_def scanRow_count)

lemma countPellets_INITIAL_MAP: "countPellets INITIAL_MAP = 127"
  by code_simp

lemma initRound_pellets:
  assumes "initRound rn keep s = Some s'"
  shows "grid s' = INITIAL_MAP \<and> pelletsRemaining s' = int (countPellets INITIAL_MAP)
       \<and> levelCompleteTimeouts s' = levelCompleteTimeouts s"
  using assms
  by (auto simp: initRound_def Let_def scanGrid_count split: option.splits)

lemma initRound_total:
  "rn = 1 \<or> rn = 2 \<or> rn = 3 \<Longrightarrow> \<exists>s'. initRound rn keep s = Some s'"
  by (auto simp: initRound_def ROUND_CONFIGS_def Let_def)

lemma respawnLogic_delta:
  "int (countPellets (grid (respawnLogic s))) - pelletsRemaining (respawnLogic s)
     = int (countPellets (grid s)) - pelletsRemaining s"
proof -
  obtain g' c' where r: "respawnLoop (powerPelletLocations s) (grid s) 0 = (g', c')"
    by (cases "respawnLoop (powerPelletLocations s) (grid s) 0")
  from respawnLoop_count [OF r]
  have c: "0 \<le> c'" "int (countPellets g') = int (countPellets (grid s)) + c'" by auto
  show ?thesis
    using c by (auto simp: respawnLogic_def r Let_def)
qed

lemma respawnLogic_timeouts [simp]:
  "levelCompleteTimeouts (respawnLogic s) = levelCompleteTimeouts s"
  by (simp add: respawnLogic_def Let_def)

lemma eatPellets_delta:
  "int (countPellets (grid (eatPellets time s))) - pelletsRemaining (eatPellets time s)
     = int (countPellets (grid s)) - pelletsRemaining s"
proof -
  let ?pX = "round (px (p_pos (pacman s)))"
  let ?pY = "round (py (p_pos (pacman s)))"
  let ?inmap = "?pY \<ge> 0 \<and> ?pY < MAP_HEIGHT \<and> ?pX \<ge> 0 \<and> ?pX < MAP_WIDTH"
  consider (pellet) "?inmap" "tileAt (grid s) ?pX ?pY = Some PELLET"
    | (power) "?inmap" "tileAt (grid s) ?pX ?pY = Some POWER_PELLET"
    | (other) "\<not> ?inmap \<or> (tileAt (grid s) ?pX ?pY \<noteq> Some PELLET
                  \<and> tileAt (grid s) ?pX ?pY \<noteq> Some POWER_PELLET)"
    by blast
  then show ?thesis
  proof cases
    case pellet
    from countPellets_setTile [OF pellet(2), of EMPTY]
    have "int (countPellets (setTile (grid s) ?pX ?pY EMPTY)) = int (countPellets (grid s)) - 1"
      by (simp add: isPelletTile_def)
    then show ?thesis using pellet by (simp add: eatPellets_def Let_def)
  next
    case power
    let ?s1 = "s\<lparr>score := jsAdd (score s) (Num 50), grid := setTile (grid s) ?pX ?pY EMPTY,
               pelletsRemaining := pelletsRemaining s - 1,
               currentPowerPellets := currentPowerPellets s - 1,
               vulnerableUntil := time + VULNERABLE_DURATION_MS,
               ghostsEatenStreak := 0,
               ghosts := map makeVulnerable (ghosts s)\<rparr>"
    from countPellets_setTile [OF power(2), of EMPTY]
    have "int (countPellets (setTile (grid s) ?pX ?pY EMPTY)) = int (countPellets (grid s)) - 1"
      by (simp add: isPelletTile_def)
    then have "int (countPellets (grid ?s1)) - pelletsRemaining ?s1
                 = int (countPellets (grid s)) - pelletsRemaining s"
      by simp
    moreover have "eatPellets time s = respawnLogic ?s1"
      using power by (simp add: eatPellets_def Let_def)
    ultimately show ?thesis using respawnLogic_delta [of ?s1] by simp
  next
    case other
    then have "eatPellets time s = s" by (auto simp: eatPellets_def Let_def)
    then show ?thesis by simp
  qed
qed

lemma eatPellets_timeouts [simp]:
  "levelCompleteTimeouts (eatPellets time s) = levelCompleteTimeouts s"
  by (simp add: eatPellets_def Let_def)

lemma eatPellets_invariant:
  "pelletInvariant s \<Longrightarrow> pelletInvariant (eatPellets time s)"
  using eatPellets_delta [of time s] by (simp add: pelletInvariant_def)

lemma pelletsKeptOrReset_refl: "pelletsKeptOrReset s s"
  by (simp add: pelletsKeptOrReset_def)

lemma pelletsKeptOrReset_trans:
  "pelletsKeptOrReset s s' \<Longrightarrow> pelletsKeptOrReset s' s'' \<Longrightarrow> pelletsKeptOrReset s s''"
  by (auto simp: pelletsKeptOrReset_def)

lemma handleDeath_pellets:
  "handleDeath teamName s = Some s' \<Longrightarrow> pelletsKeptOrReset s s'"
  by (auto simp: handleDeath_def handleDemotionOrGameOver_def resetPositions_def Let_def
        pelletsKeptOrReset_def dest!: initRound_pellets split: if_splits)

lemma handleDeath_total: "\<exists>s'. handleDeath teamName s = Some s'"
  using initRound_total [of 1]
  by (auto simp: handleDeath_def handleDemotionOrGameOver_def Let_def)

lemma collideGhost_pellets:
  "collideGhost rand teamName time i (det, s) = Some (det', s') \<Longrightarrow> pelletsKeptOrReset s s'"
  by (auto simp: collideGhost_def Let_def pelletsKeptOrReset_refl
        dest!: handleDeath_pellets split: if_splits option.splits)
     (auto simp: pelletsKeptOrReset_def)

lemma collideGhost_total:
  "\<exists>ds'. collideGhost rand teamName time i ds = Some ds'"
  using handleDeath_total [of teamName "snd ds"]
  by (auto simp: collideGhost_def Let_def)

lemma collisionLoop_pellets:
  "collisionLoop rand teamName time n i (det, s) = Some (det', s') \<Longrightarrow> pelletsKeptOrReset s s'"
proof (induction n arbitrary: i det s)
  case 0
  then show ?case by (simp add: pelletsKeptOrReset_refl)
next
  case (Suc n)
  from Suc.prems obtain det1 s1 where
    a: "collideGhost rand teamName time i (det, s) = Some (det1, s1)"
    and b: "collisionLoop rand teamName time n (i + 1) (det1, s1) = Some (det', s')"
    by (auto split: option.splits)
  from collideGhost_pellets [OF a] Suc.IH [OF b] show ?case
    by (rule pelletsKeptOrReset_trans)
qed

lemma collisionLoop_total:
  "\<exists>ds'. collisionLoop rand teamName time n i ds = Some ds'"
proof (induction n arbitrary: i ds)
  case 0
  then show ?case by simp
next
  case (Suc n)
  obtain ds1 where "collideGhost rand teamName time i ds = Some ds1"
    using collideGhost_total by blast
  then show ?case using Suc.IH [of "i + 1" ds1] by simp
qed

lemma collisions_pellets:
  "collisions rand teamName time s = Some s' \<Longrightarrow> pelletsKeptOrReset s s'"
  by (auto simp: collisions_def dest: collisionLoop_pellets)

lemma collisions_total: "\<exists>s'. collisions rand teamName time s = Some s'"
  using collisionLoop_total [of rand teamName time "length (ghosts s)" 0 "(None, s)"]
  by (auto simp: collisions_def)


lemma ghostLogic_pellets [simp]:
  "grid (ghostLogic rand delta sp s) = grid s"
  "pelletsRemaining (ghostLogic rand delta sp s) = pelletsRemaining s"
  "levelCompleteTimeouts (ghostLogic rand delta sp s) = levelCompleteTimeouts s"
  by (simp_all add: ghostLogic_def Let_def)

lemma vulnerabilityTimer_pellets [simp]:
  "grid (vulnerabilityTimer time s) = grid s"
  "pelletsRemaining (vulnerabilityTimer time s) = pelletsRemaining s"
  "levelCompleteTimeouts (vulnerabilityTimer time s) = levelCompleteTimeouts s"
  by (simp_all add: vulnerabilityTimer_def)

lemma cleanupPopups_pellets [simp]:
  "grid (cleanupPopups time s) = grid s"
  "pelletsRemaining (cleanupPopups time s) = pelletsRemaining s"
  "levelCompleteTimeouts (cleanupPopups time s) = levelCompleteTimeouts s"
  by (simp_all add: cleanupPopups_def)

lemma pelletsKeptOrReset_cong:
  assumes "pelletsKeptOrReset s7 s'"
    and "grid s7 = grid s4" and "pelletsRemaining s7 = pelletsRemaining s4"
    and "levelCompleteTimeouts s7 = levelCompleteTimeouts s4"
  shows "pelletsKeptOrReset s4 s'"
  using assms by (auto simp: pelletsKeptOrReset_def)

lemma update_playing:
  assumes "status s = PLAYING" and "update rand teamName time s = Some s'"
  shows "\<exists>s3. grid s3 = grid s \<and> pelletsRemaining s3 = pelletsRemaining s
            \<and> levelCompleteTimeouts s3 = levelCompleteTimeouts s
            \<and> (pelletsRemaining (eatPellets time s3) = 0
                  \<and> s' = handleLevelComplete (eatPellets time s3)
               \<or> pelletsRemaining (eatPellets time s3) \<noteq> 0
                  \<and> pelletsKeptOrReset (eatPellets time s3) s')"
proof -
  obtain config where cfg: "ROUND_CONFIGS (roundNo s) = Some config"
    using assms by (auto simp: update_def Let_def split: option.splits)
  define st where "st = s\<lparr>lastFrameTime := time, frameCount := frameCount s + 1\<rparr>"
  define s1 where "s1 = st\<lparr>pacman := immediateReversal (pacman st)\<rparr>"
  define s2 where
    "s2 = s1\<lparr>pacman := pacmanLoop (grid s1) 0 ((time - lastFrameTime s) / speed config) (pacman s1)\<rparr>"
  define s3 where "s3 = s2\<lparr>pacman := pacmanTunnel (pacman s2)\<rparr>"
  define s7 where
    "s7 = cleanupPopups time (vulnerabilityTimer time
            (ghostLogic rand (time - lastFrameTime s) (speed config) (eatPellets time s3)))"
  have upd: "update rand teamName time s =
      (if pelletsRemaining (eatPellets time s3) = 0
       then Some (handleLevelComplete (eatPellets time s3))
       else collisions rand teamName time s7)"
    using assms(1) cfg
    by (simp add: update_def Let_def st_def s1_def s2_def s3_def s7_def)
  have same: "grid s3 = grid s" "pelletsRemaining s3 = pelletsRemaining s"
    "levelCompleteTimeouts s3 = levelCompleteTimeouts s"
    by (simp_all add: s3_def s2_def s1_def st_def)
  show ?thesis
  proof (cases "pelletsRemaining (eatPellets time s3) = 0")
    case True
    then have "s' = handleLevelComplete (eatPellets time s3)"
      using upd assms(2) by simp
    then show ?thesis using same True by blast
  next
    case False
    then have "collisions rand teamName time s7 = Some s'"
      using upd assms(2) by simp
    then have "pelletsKeptOrReset s7 s'" by (rule collisions_pellets)
    then have "pelletsKeptOrReset (eatPellets time s3) s'"
      by (rule pelletsKeptOrReset_cong) (simp_all add: s7_def)
    then show ?thesis using same False by blast
  qed
qed

lemma pelletsKeptOrReset_invariant:
  "pelletInvariant s \<Longrightarrow> pelletsKeptOrReset s s' \<Longrightarrow> pelletInvariant s'"
  by (auto simp: pelletInvariant_def pelletsKeptOrReset_def)

lemma update_playing_result:
  assumes "pelletInvariant s" and "status s = PLAYING"
    and "update rand teamName time s = Some s'"
  shows "pelletInvariant s'
       \<and> (levelCompleteTimeouts s' = levelCompleteTimeouts s + 1 \<and> status s' = LEVEL_TRANSITION
             \<and> pelletsRemaining s' = 0
          \<or> levelCompleteTimeouts s' = levelCompleteTimeouts s \<and> pelletsRemaining s' \<noteq> 0)"
proof -
  from update_playing [OF assms(2,3)] obtain s3 where
    same: "grid s3 = grid s" "pelletsRemaining s3 = pelletsRemaining s"
      "levelCompleteTimeouts s3 = levelCompleteTimeouts s"
    and alt: "pelletsRemaining (eatPellets time s3) = 0
                  \<and> s' = handleLevelComplete (eatPellets time s3)
               \<or> pelletsRemaining (eatPellets time s3) \<noteq> 0
                  \<and> pelletsKeptOrReset (eatPellets time s3) s'"
    by blast
  have "pelletInvariant s3" using assms(1) same by (simp add: pelletInvariant_def)
  then have inv4: "pelletInvariant (eatPellets time s3)" by (rule eatPellets_invariant)
  from alt show ?thesis
  proof
    assume a: "pelletsRemaining (eatPellets time s3) = 0
                  \<and> s' = handleLevelComplete (eatPellets time s3)"
    then have "pelletInvariant s'"
      using inv4 by (simp add: pelletInvariant_def handleLevelComplete_def)
    then show ?thesis using a same by (simp add: handleLevelComplete_def)
  next
    assume a: "pelletsRemaining (eatPellets time s3) \<noteq> 0
                  \<and> pelletsKeptOrReset (eatPellets time s3) s'"
    then have "pelletInvariant s'"
      using inv4 pelletsKeptOrReset_invariant by blast
    moreover have "levelCompleteTimeouts s' = levelCompleteTimeouts s"
      using a same by (simp add: pelletsKeptOrReset_def)
    moreover have "pelletsRemaining s' \<noteq> 0"
      using a by (auto simp: pelletsKeptOrReset_def countPellets_INITIAL_MAP)
    ultimately show ?thesis by simp
  qed
qed

lemma update_invariant:
  assumes "pelletInvariant s" and "update rand teamName time s = Some s'"
  shows "pelletInvariant s'"
proof (cases "status s = PLAYING")
  case True
  then show ?thesis using update_playing_result [OF assms(1) True assms(2)] by simp
next
  case False
  then have "grid s' = grid s \<and> pelletsRemaining s' = pelletsRemaining s"
    using assms(2) by (cases "status s") (auto simp: update_def pauseTick_def Let_def)
  then show ?thesis using assms(1) by (simp add: pelletInvariant_def)
qed

lemma update_total:
  assumes "roundNo s = 1 \<or> roundNo s = 2 \<or> roundNo s = 3"
  shows "\<exists>s'. update rand teamName time s = Some s'"
proof -
  obtain config where "ROUND_CONFIGS (roundNo s) = Some config"
    using assms by (auto simp: ROUND_CONFIGS_def)
  then show ?thesis
    using collisions_total by (auto simp: update_def Let_def)
qed

lemma initRound_invariant:
  "initRound rn keep s = Some s' \<Longrightarrow> pelletInvariant s'"
  using initRound_pellets [of rn keep s s'] by (simp add: pelletInvariant_def)

lemma step_invariant:
  assumes "pelletInvariant s" and "step rand teamName e s = Some s'"
  shows "pelletInvariant s'"
proof (cases e)
  case (Tick time)
  then show ?thesis using assms update_invariant by auto
next
  case (KeyDown key)
  then show ?thesis
    using assms by (auto simp: handleKeyDown_def Let_def pelletInvariant_def)
next
  case LevelCompleteTimeout
  then show ?thesis
    using assms initRound_invariant
    by (auto simp: levelCompleteTimeout_def pelletInvariant_def split: if_splits)
qed

lemma run_invariant:
  "pelletInvariant s \<Longrightarrow> run rand teamName evs s = Some s' \<Longrightarrow> pelletInvariant s'"
proof (induction evs arbitrary: s)
  case Nil
  then show ?case by simp
next
  case (Cons e evs)
  from Cons.prems(2) obtain s1 where
    a: "step rand teamName e s = Some s1" and b: "run rand teamName evs s1 = Some s'"
    by (auto split: option.splits)
  from step_invariant [OF Cons.prems(1) a] b show ?case by (rule Cons.IH)
qed

text \<open>
  C1: the pellets-remaining counter equals the number of \<open>PELLET\<close> and
  \<open>POWER_PELLET\<close> tiles of the live grid
  \<^item> after every \<open>initRound\<close>, and
  \<^item> after every run of ticks, key presses and level-complete callbacks, in any order,
    that starts from a freshly initialised round and raises no exception.
  The pellet phase of a tick changes the counter by exactly as much as it changes that
  number of tiles (one less per tile consumed, one more per tile restored). A tick in
  \<open>PLAYING\<close> keeps the invariant, and it takes the round-complete transition (it
  schedules the level-complete callback and enters \<open>LEVEL_TRANSITION\<close>) if and only if
  the counter is exactly 0 after it. A tick of a state in round 1, 2 or 3 returns.
\<close>

theorem C1_pellet_counter:
  "(\<forall>rn keep s s'. initRound rn keep s = Some s' \<longrightarrow> pelletInvariant s')
   \<and> (\<forall>rn keep s s0 evs s'. initRound rn keep s = Some s0
          \<and> run rand teamName evs s0 = Some s' \<longrightarrow> pelletInvariant s')
   \<and> (\<forall>s time. int (countPellets (grid (eatPellets time s))) - pelletsRemaining (eatPellets time s)
          = int (countPellets (grid s)) - pelletsRemaining s)
   \<and> (\<forall>s time s'. pelletInvariant s \<and> status s = PLAYING
          \<and> update rand teamName time s = Some s' \<longrightarrow>
          pelletInvariant s'
          \<and> (levelCompleteTimeouts s' = levelCompleteTimeouts s + 1
                \<and> status s' = LEVEL_TRANSITION \<and> pelletsRemaining s' = 0
             \<or> levelCompleteTimeouts s' = levelCompleteTimeouts s \<and> pelletsRemaining s' \<noteq> 0))
   \<and> (\<forall>s time. roundNo s = 1 \<or> roundNo s = 2 \<or> roundNo s = 3 \<longrightarrow>
          (\<exists>s'. update rand teamName time s = Some s'))"
proof (intro conjI allI impI)
  fix rn keep s s'
  assume "initRound rn keep s = Some s'"
  then show "pelletInvariant s'" by (rule initRound_invariant)
next
  fix rn keep s s0 evs s'
  assume a: "initRound rn keep s = Some s0 \<and> run rand teamName evs s0 = Some s'"
  then have "pelletInvariant s0" using initRound_invariant by blast
  then show "pelletInvariant s'" using a run_invariant by blast
next
  fix s time
  show "int (countPellets (grid (eatPellets time s))) - pelletsRemaining (eatPellets time s)
          = int (countPellets (grid s)) - pelletsRemaining s"
    by (rule eatPellets_delta)
next
  fix s time s'
  assume a: "pelletInvariant s \<and> status s = PLAYING \<and> update rand teamName time s = Some s'"
  then show "pelletInvariant s'"
    using update_playing_result by blast
  show "levelCompleteTimeouts s' = levelCompleteTimeouts s + 1
                \<and> status s' = LEVEL_TRANSITION \<and> pelletsRemaining s' = 0
             \<or> levelCompleteTimeouts s' = levelCompleteTimeouts s \<and> pelletsRemaining s' \<noteq> 0"
    using a update_playing_result by blast
next
  fix s :: GameState and time
  assume "roundNo s = 1 \<or> roundNo s = 2 \<or> roundNo s = 3"
  then show "\<exists>s'. update rand teamName time s = Some s'" by (rule update_total)
qed


text \<open>
  Witness: a tick of a fresh round, which keeps 127 pellets and does not complete the
  round, and a tick in which the player eats the only pellet left, which does.
\<close>

theorem C1_pellet_counter_witness:
  "(\<exists>s'. update (\<lambda>k. 0) ''TEAM'' 1016
            ((exampleState 9 10 RIGHT [exampleGhost 1 9 8 UP NORMAL])\<lparr>lastFrameTime := 1000\<rparr>)
            = Some s'
         \<and> pelletInvariant s' \<and> levelCompleteTimeouts s' = 0 \<and> pelletsRemaining s' = 127)
   \<and> (\<exists>s'. update (\<lambda>k. 0) ''TEAM'' 1016
            ((exampleState 10 10 RIGHT [exampleGhost 1 9 8 UP EATEN])
               \<lparr>grid := onePelletGrid, pelletsRemaining := 1, currentPowerPellets := 0,
                 lastFrameTime := 1000\<rparr>)
            = Some s'
         \<and> pelletInvariant s' \<and> levelCompleteTimeouts s' = 1 \<and> status s' = LEVEL_TRANSITION
         \<and> pelletsRemaining s' = 0)"
proof
  let ?S = "(exampleState 9 10 RIGHT [exampleGhost 1 9 8 UP NORMAL])\<lparr>lastFrameTime := 1000\<rparr>"
  note C1 = C1_pellet_counter [where rand = "\<lambda>k. 0" and teamName = "''TEAM''"]
  have inv: "pelletInvariant ?S" by code_simp
  have pl: "status ?S = PLAYING" by code_simp
  have rn: "roundNo ?S = 1" by code_simp
  have t0: "levelCompleteTimeouts ?S = 0" by code_simp
  from C1 rn obtain s' where upd: "update (\<lambda>k. 0) ''TEAM'' 1016 ?S = Some s'" by blast
  from C1 inv pl upd
  have r: "pelletInvariant s'"
    "levelCompleteTimeouts s' = levelCompleteTimeouts ?S + 1
                \<and> status s' = LEVEL_TRANSITION \<and> pelletsRemaining s' = 0
             \<or> levelCompleteTimeouts s' = levelCompleteTimeouts ?S \<and> pelletsRemaining s' \<noteq> 0"
    by blast+
  have "map_option pelletsRemaining (update (\<lambda>k. 0) ''TEAM'' 1016 ?S) = Some 127"
    by code_simp
  then have p: "pelletsRemaining s' = 127" using upd by simp
  then have "levelCompleteTimeouts s' = 0" using r(2) t0 by auto
  then show "\<exists>s'. update (\<lambda>k. 0) ''TEAM'' 1016 ?S = Some s'
         \<and> pelletInvariant s' \<and> levelCompleteTimeouts s' = 0 \<and> pelletsRemaining s' = 127"
    using upd r(1) p by blast
next
  let ?S = "(exampleState 10 10 RIGHT [exampleGhost 1 9 8 UP EATEN])
               \<lparr>grid := onePelletGrid, pelletsRemaining := 1, currentPowerPellets := 0,
                 lastFrameTime := 1000\<rparr>"
  note C1 = C1_pellet_counter [where rand = "\<lambda>k. 0" and teamName = "''TEAM''"]
  have inv: "pelletInvariant ?S" by code_simp
  have pl: "status ?S = PLAYING" by code_simp
  have rn: "roundNo ?S = 1" by code_simp
  have t0: "levelCompleteTimeouts ?S = 0" by code_simp
  from C1 rn obtain s' where upd: "update (\<lambda>k. 0) ''TEAM'' 1016 ?S = Some s'" by blast
  from C1 inv pl upd
  have r: "pelletInvariant s'"
    "levelCompleteTimeouts s' = levelCompleteTimeouts ?S + 1
                \<and> status s' = LEVEL_TRANSITION \<and> pelletsRemaining s' = 0
             \<or> levelCompleteTimeouts s' = levelCompleteTimeouts ?S \<and> pelletsRemaining s' \<noteq> 0"
    by blast+
  have "map_option pelletsRemaining (update (\<lambda>k. 0) ''TEAM'' 1016 ?S) = Some 0"
    by code_simp
  then have p: "pelletsRemaining s' = 0" using upd by simp
  then have "levelCompleteTimeouts s' = 1 \<and> status s' = LEVEL_TRANSITION" using r(2) t0 by auto
  then show "\<exists>s'. update (\<lambda>k. 0) ''TEAM'' 1016 ?S = Some s'
         \<and> pelletInvariant s' \<and> levelCompleteTimeouts s' = 1 \<and> status s' = LEVEL_TRANSITION
         \<and> pelletsRemaining s' = 0"
    using upd r(1) p by blast
qed

section \<open>Death with no lives remaining (C7)\<close>

text \<open>
  One call of \<open>handleDeath\<close> on the last life: in round 1 the status becomes
  \<open>LEVEL_TRANSITION\<close> and the call records the score once; in a later round the lives
  are back at 3, the round is 1, the score is kept and \<open>initRound\<close> has set the status
  to \<open>ROUND_STARTING\<close>.
\<close>

lemma handleDeath_game_over:
  assumes "lives s \<le> 1" and "roundNo s = 1"
  shows "handleDeath teamName s =
     Some (s\<lparr>lives := lives s - 1, status := LEVEL_TRANSITION,
             saveScoreCalls := saveScoreCalls s @ [(teamName, score s)],
             onGameOverCalls := onGameOverCalls s @ [score s]\<rparr>)"
  using assms by (simp add: handleDeath_def handleDemotionOrGameOver_def Let_def)

lemma handleDeath_demotion:
  assumes "lives s \<le> 1" and "roundNo s \<noteq> 1"
  shows "\<exists>s'. handleDeath teamName s = Some s' \<and> lives s' = 3 \<and> roundNo s' = 1
           \<and> score s' = score s \<and> status s' = ROUND_STARTING
           \<and> saveScoreCalls s' = saveScoreCalls s \<and> onGameOverCalls s' = onGameOverCalls s"
  using assms
  by (simp add: handleDeath_def handleDemotionOrGameOver_def initRound_def ROUND_CONFIGS_def
        Let_def)

text \<open>
  C7 fails on the code in round 1: the collision pass does not stop when the player has
  died with no lives remaining, so a second \<open>NORMAL\<close> ghost within the collision
  distance makes the player die again in the same tick. In \<open>lastLifeState\<close> the next
  frame, 16 ms later, brings the two ghosts that come down the column to 0.44 tiles from
  the player: the tick records the final score twice, reports the game over twice and
  leaves the lives at -1.
\<close>

theorem C7_score_persisted_twice:
  "update (\<lambda>k. 0) ''TEAM'' 6640 lastLifeState =
     Some (lastLifeState
       \<lparr>ghosts :=
          [(mkGhost (INITIAL_GHOSTS ! 0))
             \<lparr>g_pos := \<lparr>px = 2781 / 325, py = 8\<rparr>, g_direction := RIGHT\<rparr>,
           (mkGhost (INITIAL_GHOSTS ! 1))
             \<lparr>g_pos := \<lparr>px = 9, py = 2781 / 325\<rparr>, g_direction := DOWN\<rparr>,
           (mkGhost (INITIAL_GHOSTS ! 2))
             \<lparr>g_pos := \<lparr>px = 9, py = 2781 / 325\<rparr>, g_direction := DOWN\<rparr>],
        lives := - 1, status := LEVEL_TRANSITION, frameCount := 415, lastFrameTime := 6640,
        saveScoreCalls := [(''TEAM'', Num 0), (''TEAM'', Num 0)],
        onGameOverCalls := [Num 0, Num 0]\<rparr>)"
  by code_simp

section \<open>The shape of the grid\<close>

text \<open>
  Every grid of a run has the rows and columns of \<open>INITIAL_MAP\<close>, so every read of
  the grid at indices inside the map finds a tile, and the recorded power-pellet
  locations of a round are the four corners of the initial map.
\<close>

lemma map_length_setTile: "map length (setTile g x y t) = map length g"
proof (cases "nat y < length g")
  case True
  then have "length (g ! nat y) = map length g ! nat y" by simp
  then have "(map length g)[nat y := length (g ! nat y)] = map length g"
    by (simp only: list_update_id)
  then show ?thesis by (simp add: setTile_def map_update)
next
  case False
  then have "g[nat y := (g ! nat y)[nat x := t]] = g"
    by (simp add: list_update_beyond)
  then show ?thesis by (simp add: setTile_def)
qed

lemma gridShape_setTile: "gridShape g \<Longrightarrow> gridShape (setTile g x y t)"
  by (simp add: gridShape_def map_length_setTile)

lemma gridShape_respawnLoop:
  "gridShape g \<Longrightarrow> gridShape (fst (respawnLoop locs g c))"
  by (induction locs arbitrary: g c) (auto simp: gridShape_setTile)

lemma gridShape_eatPellets:
  "gridShape (grid s) \<Longrightarrow> gridShape (grid (eatPellets time s))"
  by (auto simp: eatPellets_def respawnLogic_def Let_def gridShape_setTile gridShape_respawnLoop)

lemma gridShape_INITIAL_MAP: "gridShape INITIAL_MAP"
  by (simp add: gridShape_def)

lemma gridShape_kept:
  "gridShape (grid s) \<Longrightarrow> pelletsKeptOrReset s s' \<Longrightarrow> gridShape (grid s')"
  by (auto simp: pelletsKeptOrReset_def gridShape_INITIAL_MAP)

lemma gridShape_update:
  assumes "gridShape (grid s)" and "update rand teamName time s = Some s'"
  shows "gridShape (grid s')"
proof (cases "status s = PLAYING")
  case True
  from update_playing [OF True assms(2)] obtain s3 where
    same: "grid s3 = grid s"
    and alt: "pelletsRemaining (eatPellets time s3) = 0
                  \<and> s' = handleLevelComplete (eatPellets time s3)
               \<or> pelletsRemaining (eatPellets time s3) \<noteq> 0
                  \<and> pelletsKeptOrReset (eatPellets time s3) s'"
    by blast
  have "gridShape (grid (eatPellets time s3))"
    using assms(1) same gridShape_eatPellets by simp
  then show ?thesis
    using alt gridShape_kept by (auto simp: handleLevelComplete_def)
next
  case False
  then have "grid s' = grid s"
    using assms(2) by (cases "status s") (auto simp: update_def pauseTick_def Let_def)
  then show ?thesis using assms(1) by simp
qed

lemma gridShape_step:
  assumes "gridShape (grid s)" and "step rand teamName e s = Some s'"
  shows "gridShape (grid s')"
proof (cases e)
  case (Tick time)
  then show ?thesis using assms gridShape_update by auto
next
  case (KeyDown key)
  then show ?thesis using assms by (auto simp: handleKeyDown_def Let_def)
next
  case LevelCompleteTimeout
  then show ?thesis
    using assms initRound_pellets
    by (auto simp: levelCompleteTimeout_def gridShape_INITIAL_MAP split: if_splits)
qed

lemma gridShape_run:
  "gridShape (grid s) \<Longrightarrow> run rand teamName evs s = Some s' \<Longrightarrow> gridShape (grid s')"
proof (induction evs arbitrary: s)
  case Nil
  then show ?case by simp
next
  case (Cons e evs)
  from Cons.prems(2) obtain s1 where
    a: "step rand teamName e s = Some s1" and b: "run rand teamName evs s1 = Some s'"
    by (auto split: option.splits)
  from gridShape_step [OF Cons.prems(1) a] b show ?case by (rule Cons.IH)
qed

lemma initRound_locations:
  "initRound rn keep s = Some s' \<Longrightarrow>
     powerPelletLocations s' = [(1, 1), (17, 1), (1, 14), (17, 14)]"
proof -
  have "scanGrid 0 INITIAL_MAP (0, []) = (127, [(1, 1), (17, 1), (1, 14), (17, 14)])"
    by code_simp
  then show "initRound rn keep s = Some s' \<Longrightarrow>
     powerPelletLocations s' = [(1, 1), (17, 1), (1, 14), (17, 14)]"
    by (auto simp: initRound_def Let_def split: option.splits)
qed

section \<open>The phases of a tick and the collision pass\<close>











lemma nearPlayer_code [code]:
  "nearPlayer pac ghost =
     ((px (g_pos ghost) - px (p_pos pac)) * (px (g_pos ghost) - px (p_pos pac))
      + (py (g_pos ghost) - py (p_pos pac)) * (py (g_pos ghost) - py (p_pos pac)) < 1 / 4)"
  by (simp add: nearPlayer_def collision_dist_iff)

section \<open>The capture streak (C5)\<close>




section \<open>Ghost statuses through the phases of a tick\<close>












section \<open>Collision passes without a death, and without a capture\<close>

lemma nearPlayer_status [simp]:
  "nearPlayer pac (ghost\<lparr>g_status := st\<rparr>) = nearPlayer pac ghost"
  by (simp add: nearPlayer_def)



section \<open>Collision passes outside a vulnerability window\<close>

lemma resetGhosts_status: "map g_status (resetGhosts idx gs) = map g_status gs"
  by (induction gs arbitrary: idx) simp_all









section \<open>Synchronised vulnerability (C4)\<close>










end
